theory Spec2Isabelle
  imports Main "HOL-Library.Sublist"
begin

section \<open>Strings\<close>

text \<open>
  Python \<open>str\<close> values are modelled as \<open>string\<close>. Three characters cannot be written
  inside a string literal and get names.
\<close>

definition backslash :: char where
  "backslash = CHR 0x5C"

definition dquote :: char where
  "dquote = CHR 0x22"

definition newline :: char where
  "newline = CHR 0x0A"

text \<open>\<open>needle in haystack\<close> on strings: the needle occurs as a contiguous run.\<close>

fun str_contains :: "string \<Rightarrow> string \<Rightarrow> bool" where
  "str_contains needle [] = (needle = [])"
| "str_contains needle (c # cs) = (prefix needle (c # cs) \<or> str_contains needle cs)"

text \<open>
  \<open>str.lower()\<close>, on the ASCII letters. Every other character is left as it is; no
  character outside \<open>A..Z\<close> lower-cases to a letter of the word the source looks for
  (\<open>unexpected\<close>), so the test below is the source's test.
\<close>

definition lower_char :: "char \<Rightarrow> char" where
  "lower_char c =
     (let n = (of_char c :: nat)
      in if 65 \<le> n \<and> n \<le> 90 then char_of (n + 32) else c)"

definition lower :: "string \<Rightarrow> string" where
  "lower s = map lower_char s"

text \<open>\<open>sep.join(xs)\<close> and \<open>s.split(sep)\<close> for a one-character separator.\<close>

fun str_join :: "string \<Rightarrow> string list \<Rightarrow> string" where
  "str_join sep [] = []"
| "str_join sep [x] = x"
| "str_join sep (x # y # ys) = x @ sep @ str_join sep (y # ys)"

fun split_on :: "char \<Rightarrow> string \<Rightarrow> string list" where
  "split_on sep [] = [[]]"
| "split_on sep (c # cs) =
     (if c = sep then [] # split_on sep cs
      else (case split_on sep cs of
              [] \<Rightarrow> [[c]]
            | w # ws \<Rightarrow> (c # w) # ws))"

definition rstrip :: "char \<Rightarrow> string \<Rightarrow> string" where
  "rstrip c s = rev (dropWhile (\<lambda>x. x = c) (rev s))"

text \<open>
  Python truthiness of an optional string (\<open>None\<close> and \<open>""\<close> are falsy) and the
  \<open>a or b\<close> operator on two such values.
\<close>

fun truthy :: "string option \<Rightarrow> bool" where
  "truthy None = False"
| "truthy (Some s) = (s \<noteq> [])"

definition py_or :: "string option \<Rightarrow> string option \<Rightarrow> string option" where
  "py_or a b = (if truthy a then a else b)"

text \<open>\<open>d.get(k) or ... or ""\<close>: the first truthy value, else the empty string.\<close>

definition or_empty :: "string option \<Rightarrow> string" where
  "or_empty a = (case a of Some s \<Rightarrow> s | None \<Rightarrow> [])"

section \<open>Paths (\<open>pathlib.PurePosixPath\<close>)\<close>

text \<open>
  A path is its root (empty for a relative path, \<open>/\<close>, or \<open>//\<close> when the text starts
  with exactly two slashes) and its components. \<open>parse_path\<close> is the constructor
  \<open>Path(s)\<close>: it splits at \<open>/\<close> and drops empty and \<open>.\<close> components.
\<close>

datatype path = Path (root: string) (parts: "string list")

definition parse_root :: "string \<Rightarrow> string" where
  "parse_root s =
     (let n = length (takeWhile (\<lambda>c. c = CHR ''/'') s)
      in if n = 0 then [] else if n = 2 then ''//'' else ''/'')"

definition parse_path :: "string \<Rightarrow> path" where
  "parse_path s =
     Path (parse_root s)
          (filter (\<lambda>c. c \<noteq> [] \<and> c \<noteq> ''.'') (split_on (CHR ''/'') s))"

text \<open>\<open>p / s\<close>: a rooted right operand replaces the left one.\<close>

definition joinpath :: "path \<Rightarrow> string \<Rightarrow> path" where
  "joinpath p s =
     (let q = parse_path s
      in if root q \<noteq> [] then q else Path (root p) (parts p @ parts q))"

definition parent :: "path \<Rightarrow> path" where
  "parent p = Path (root p) (butlast (parts p))"

text \<open>\<open>str(p)\<close>.\<close>

definition path_str :: "path \<Rightarrow> string" where
  "path_str p =
     (if root p = [] \<and> parts p = [] then ''.''
      else root p @ str_join ''/'' (parts p))"

text \<open>
  \<open>p.relative_to(base)\<close>: the components of \<open>p\<close> below \<open>base\<close>; \<open>None\<close> stands for the
  \<open>ValueError\<close> raised when \<open>p\<close> is not \<open>base\<close> or one of its descendants (the roots
  must be the same).
\<close>

definition relative_to :: "path \<Rightarrow> path \<Rightarrow> string list option" where
  "relative_to p base =
     (if root p = root base \<and> prefix (parts base) (parts p)
      then Some (drop (length (parts base)) (parts p))
      else None)"

section \<open>The file system\<close>

text \<open>
  What \<open>pathlib\<close> and \<open>open\<close> talk to. \<open>entries\<close> maps a path to what is there; a file
  holds bytes, or the JSON payload record (whose \<open>timestamp\<close> field, a floating-point
  clock reading, is left out). Paths are compared as written: no symbolic links, no
  \<open>..\<close>. \<open>denied\<close> marks the paths the operating system refuses to create or truncate
  for this process. \<open>stat_fails\<close> marks the paths at which \<open>stat\<close> fails with an error
  other than "nothing there" (no search permission on a directory above, a name that
  is too long): \<open>Path.exists\<close> raises there. \<open>encode\<close> is the text layer of \<open>open\<close>: the
  bytes the locale's encoding gives for a string, \<open>None\<close> when it refuses the string.
  \<open>exists_calls\<close> lists the paths handed to \<open>Path.exists\<close>, in order.
\<close>

datatype content =
    Bytes string
  | AuthPayload "string option" "string \<rightharpoonup> string"

datatype node = Dir | File content

record filesystem =
  entries :: "path \<rightharpoonup> node"
  denied :: "path \<Rightarrow> bool"
  stat_fails :: "path \<Rightarrow> bool"
  encode :: "string \<Rightarrow> string option"
  exists_calls :: "path list"

datatype exn = OSError | UnicodeEncodeError | RuntimeError | AttributeError string

text \<open>\<open>p.exists()\<close>: the answer or the exception, and the call recorded.\<close>

definition exists :: "path \<Rightarrow> filesystem \<Rightarrow> (exn + bool) \<times> filesystem" where
  "exists p fs =
     (if stat_fails fs p then Inl OSError else Inr (entries fs p \<noteq> None),
      fs\<lparr>exists_calls := exists_calls fs @ [p]\<rparr>)"

text \<open>
  Opening a file for writing succeeds when its parent is a directory, the path itself
  is not one, and the operating system does not refuse.
\<close>

definition can_write :: "filesystem \<Rightarrow> path \<Rightarrow> bool" where
  "can_write fs p =
     (entries fs (parent p) = Some Dir \<and> entries fs p \<noteq> Some Dir \<and> \<not> denied fs p)"

text \<open>
  \<open>p.write_text(s)\<close>: the file is opened (created or emptied) first; then the string is
  encoded and written. A string the encoding refuses raises and leaves the file empty.
\<close>

definition write_text :: "path \<Rightarrow> string \<Rightarrow> filesystem \<Rightarrow> (exn + unit) \<times> filesystem" where
  "write_text p s fs =
     (if \<not> can_write fs p then (Inl OSError, fs)
      else (case encode fs s of
              None \<Rightarrow>
                (Inl UnicodeEncodeError, fs\<lparr>entries := (entries fs)(p \<mapsto> File (Bytes []))\<rparr>)
            | Some bs \<Rightarrow>
                (Inr (), fs\<lparr>entries := (entries fs)(p \<mapsto> File (Bytes bs))\<rparr>)))"

text \<open>
  \<open>open(p, "w")\<close> followed by \<open>json.dump\<close> of the payload: the output of \<open>json.dump\<close> is
  ASCII, which the encoding does not refuse.
\<close>

definition write_json :: "path \<Rightarrow> content \<Rightarrow> filesystem \<Rightarrow> exn + filesystem" where
  "write_json p c fs =
     (if can_write fs p then Inr (fs\<lparr>entries := (entries fs)(p \<mapsto> File c)\<rparr>)
      else Inl OSError)"

text \<open>
  \<open>p.mkdir(parents=True, exist_ok=True)\<close>: every missing directory from the top down
  to \<open>p\<close> is created; a file in the way, or a refusal, raises, and the directories
  made so far stay.
\<close>

fun mkdirs :: "path list \<Rightarrow> filesystem \<Rightarrow> (exn + unit) \<times> filesystem" where
  "mkdirs [] fs = (Inr (), fs)"
| "mkdirs (d # ds) fs =
     (case entries fs d of
        Some Dir \<Rightarrow> mkdirs ds fs
      | Some (File _) \<Rightarrow> (Inl OSError, fs)
      | None \<Rightarrow>
          if denied fs d then (Inl OSError, fs)
          else mkdirs ds (fs\<lparr>entries := (entries fs)(d \<mapsto> Dir)\<rparr>))"

definition mkdir_parents :: "path \<Rightarrow> filesystem \<Rightarrow> (exn + unit) \<times> filesystem" where
  "mkdir_parents p fs = mkdirs (map (Path (root p)) (tl (prefixes (parts p)))) fs"

section \<open>The process's surroundings\<close>

text \<open>
  What the program reads from and does to its surroundings is one record, passed
  through every operation: the environment variables, the home directory (what
  \<open>os.path.expanduser("~")\<close> and \<open>Path.home()\<close> give), \<open>shutil.which\<close> (whether a
  program is on the search path), the file system, the outcome of each external
  command, the log of the commands run so far, symbolic-link resolution
  (\<open>Path.resolve\<close>, which raises on a symbolic-link loop), recursive globbing (\<open>Path.rglob\<close>, in the directory order of the
  operating system), the integer part of the event loop's clock as \<open>str(int(...))\<close>
  prints it, and the name \<open>tempfile\<close> picks for the registry script (that file lives
  in the system's temporary directory, outside the modelled file system).
  Logging is left out.
\<close>

datatype proc_result =
    Completed (returncode: int) (stdout: string) (stderr: string)
  | TimeoutExpired
  | RunError

record command =
  argv :: "string list"
  timeout :: "nat option"
  env_wineprefix :: "string option"

record world =
  environ :: "string \<rightharpoonup> string"
  home :: string
  which :: "string \<Rightarrow> bool"
  filesys :: filesystem
  run :: "command \<Rightarrow> proc_result"
  calls :: "command list"
  resolve :: "path \<Rightarrow> exn + path"
  rglob :: "path \<Rightarrow> string \<Rightarrow> path list"
  loop_time :: string
  tmp_reg_file :: string

text \<open>\<open>subprocess.run\<close>: the command is logged and its outcome handed back.\<close>

definition subprocess_run :: "command \<Rightarrow> world \<Rightarrow> proc_result \<times> world" where
  "subprocess_run cmd w = (run w cmd, w\<lparr>calls := calls w @ [cmd]\<rparr>)"

text \<open>\<open>os.environ.get("WINEPREFIX", os.path.expanduser("~/.wine-sv2"))\<close>.\<close>

definition wineprefix_env :: "world \<Rightarrow> string" where
  "wineprefix_env w =
     (case environ w ''WINEPREFIX'' of
        Some s \<Rightarrow> s
      | None \<Rightarrow> rstrip (CHR ''/'') (home w) @ ''/.wine-sv2'')"

text \<open>\<open>get_wine_prefix\<close>; the exception of \<open>bottles_prefix.exists()\<close> leaves it.\<close>

definition get_wine_prefix :: "world \<Rightarrow> (exn + path) \<times> world" where
  "get_wine_prefix w =
     (case environ w ''SV2_BOTTLE_NAME'' of
        None \<Rightarrow> (Inr (parse_path (wineprefix_env w)), w)
      | Some bottle_name \<Rightarrow>
          if bottle_name \<noteq> [] then
            (let bottles_prefix =
                   joinpath (joinpath (parse_path (home w))
                       ''.var/app/com.usebottles.bottles/data/bottles/bottles'') bottle_name
             in case exists bottles_prefix (filesys w) of
                  (Inl e, fs1) \<Rightarrow> (Inl e, w\<lparr>filesys := fs1\<rparr>)
                | (Inr True, fs1) \<Rightarrow> (Inr bottles_prefix, w\<lparr>filesys := fs1\<rparr>)
                | (Inr False, fs1) \<Rightarrow>
                    (Inr (parse_path (wineprefix_env w)), w\<lparr>filesys := fs1\<rparr>))
          else (Inr (parse_path (wineprefix_env w)), w))"

definition wine_exe :: "world \<Rightarrow> string" where
  "wine_exe w = (if which w ''wine-staging'' then ''wine-staging'' else ''wine'')"

section \<open>Credential handoff: the cb file\<close>

definition license_dir :: "path \<Rightarrow> string \<Rightarrow> path" where
  "license_dir wine_prefix user =
     joinpath (joinpath (joinpath (joinpath (joinpath (joinpath (joinpath (joinpath
       wine_prefix ''drive_c'') ''users'') user) ''AppData'') ''Roaming'')
       ''Dreamtonics'') ''Synthesizer V Studio 2'') ''license''"

definition cv_file :: "path \<Rightarrow> string \<Rightarrow> path" where
  "cv_file wine_prefix user = joinpath (license_dir wine_prefix user) ''cv''"

definition cb_file :: "path \<Rightarrow> string \<Rightarrow> path" where
  "cb_file wine_prefix user = joinpath (license_dir wine_prefix user) ''cb''"

definition possible_users :: "world \<Rightarrow> string list" where
  "possible_users w =
     [''steamuser'', ''Public'',
      (case environ w ''USER'' of Some u \<Rightarrow> u | None \<Rightarrow> ''user'')]"

text \<open>
  The \<open>for user in possible_users\<close> loop. \<open>None\<close>: the loop ran to its end without
  returning. \<open>Some r\<close>: the loop ended at a user, either because probing that user's cv
  file raised (\<open>r\<close> is the exception), or because the cv file exists and \<open>write_text\<close>
  ran (\<open>r\<close> is what the write did).
\<close>

fun cv_loop ::
    "path \<Rightarrow> string \<Rightarrow> string list \<Rightarrow> filesystem \<Rightarrow> (exn + unit) option \<times> filesystem" where
  "cv_loop wine_prefix auth_code [] fs = (None, fs)"
| "cv_loop wine_prefix auth_code (user # users) fs =
     (case exists (cv_file wine_prefix user) fs of
        (Inl e, fs1) \<Rightarrow> (Some (Inl e), fs1)
      | (Inr True, fs1) \<Rightarrow>
          (case write_text (cb_file wine_prefix user) auth_code fs1 of
             (r, fs2) \<Rightarrow> (Some r, fs2))
      | (Inr False, fs1) \<Rightarrow> cv_loop wine_prefix auth_code users fs1)"

text \<open>
  \<open>_write_auth_code_to_cb_file\<close> (an Isabelle name cannot start with an underscore).
  Every exception is caught and turned into \<open>False\<close>; what was done before it stays.
\<close>

definition write_auth_code_to_cb_file :: "world \<Rightarrow> string \<Rightarrow> bool \<times> world" where
  "write_auth_code_to_cb_file w auth_code =
     (case get_wine_prefix w of
        (Inl e, w1) \<Rightarrow> (False, w1)
      | (Inr wine_prefix, w1) \<Rightarrow>
          (case cv_loop wine_prefix auth_code (possible_users w1) (filesys w1) of
             (Some (Inr u), fs1) \<Rightarrow> (True, w1\<lparr>filesys := fs1\<rparr>)
           | (Some (Inl e), fs1) \<Rightarrow> (False, w1\<lparr>filesys := fs1\<rparr>)
           | (None, fs1) \<Rightarrow>
               (let license_dir = license_dir wine_prefix ''steamuser''
                in case exists license_dir fs1 of
                     (Inl e, fs2) \<Rightarrow> (False, w1\<lparr>filesys := fs2\<rparr>)
                   | (Inr True, fs2) \<Rightarrow>
                       (case write_text (joinpath license_dir ''cb'') auth_code fs2 of
                          (Inr u, fs3) \<Rightarrow> (True, w1\<lparr>filesys := fs3\<rparr>)
                        | (Inl e, fs3) \<Rightarrow> (False, w1\<lparr>filesys := fs3\<rparr>))
                   | (Inr False, fs2) \<Rightarrow> (False, w1\<lparr>filesys := fs2\<rparr>))))"

section \<open>Credential handoff: the registry\<close>

definition reg_key :: string where
  "reg_key = ''HKEY_CURRENT_USER'' @ [backslash] @ ''Software'' @ [backslash] @
     ''Dreamtonics'' @ [backslash] @ ''Synthesizer V Studio 2'' @ [backslash] @ ''Auth''"

definition bottles_cli :: "string list" where
  "bottles_cli = [''flatpak'', ''run'', ''--command=bottles-cli'', ''com.usebottles.bottles'']"

definition reg_add_cmd :: "string \<Rightarrow> string \<Rightarrow> string \<Rightarrow> command" where
  "reg_add_cmd bottle_name value_name value_data =
     \<lparr>argv = bottles_cli @ [''reg'', ''add'', ''-b'', bottle_name, ''-k'', reg_key,
                ''-v'', value_name, ''-d'', value_data],
      timeout = None, env_wineprefix = None\<rparr>"

text \<open>
  The loop over \<open>reg_values\<close>; its value is \<open>all_success\<close>, or the exception of a
  command that could not be run.
\<close>

fun reg_add_all :: "string \<Rightarrow> (string \<times> string) list \<Rightarrow> world \<Rightarrow> (exn + bool) \<times> world" where
  "reg_add_all bottle_name [] w = (Inr True, w)"
| "reg_add_all bottle_name ((value_name, value_data) # rest) w =
     (case subprocess_run (reg_add_cmd bottle_name value_name value_data) w of
        (Completed rc out err, w1) \<Rightarrow>
          (case reg_add_all bottle_name rest w1 of
             (Inr ok, w2) \<Rightarrow> (Inr (rc = 0 \<and> ok), w2)
           | (Inl e, w2) \<Rightarrow> (Inl e, w2))
      | (_, w1) \<Rightarrow> (Inl OSError, w1))"

definition param_or_empty :: "(string \<rightharpoonup> string) \<Rightarrow> string \<Rightarrow> string" where
  "param_or_empty params k = (case params k of Some v \<Rightarrow> v | None \<Rightarrow> [])"

text \<open>The registry script of the \<open>regedit\<close> path, as the f-string builds it.\<close>

definition reg_line :: "string \<Rightarrow> string \<Rightarrow> string" where
  "reg_line value_name value_data =
     [dquote] @ value_name @ [dquote] @ ''='' @ [dquote] @ value_data @ [dquote, newline]"

definition reg_content :: "(string \<times> string) list \<Rightarrow> string" where
  "reg_content reg_values =
     ''REGEDIT4'' @ [newline, newline] @ ''['' @ reg_key @ '']'' @ [newline] @
     concat (map (\<lambda>(value_name, value_data). reg_line value_name value_data) reg_values)"

text \<open>
  \<open>_inject_registry_payload\<close>. Every exception is caught and turned into \<open>False\<close>. On the
  \<open>regedit\<close> path the script is written to the temporary file first, through the same
  text layer as every other file: a script the encoding refuses raises there, before
  the prefix is looked up and before any command is run.
\<close>

definition inject_registry_payload :: "world \<Rightarrow> (string \<rightharpoonup> string) \<Rightarrow> bool \<times> world" where
  "inject_registry_payload w params =
     (let reg_values =
            [(''AuthCode'', param_or_empty params ''code''),
             (''State'', param_or_empty params ''state''),
             (''SessionState'', param_or_empty params ''session_state''),
             (''Issuer'', param_or_empty params ''iss''),
             (''AuthTimestamp'', loop_time w)];
          bottle_name = environ w ''SV2_BOTTLE_NAME''
      in if truthy bottle_name \<and> which w ''flatpak''
         then (case reg_add_all (or_empty bottle_name) reg_values w of
                 (Inr all_success, w1) \<Rightarrow> (True, w1)
               | (Inl e, w1) \<Rightarrow> (False, w1))
         else (case encode (filesys w) (reg_content reg_values) of
                 None \<Rightarrow> (False, w)
               | Some bs \<Rightarrow>
                   (case get_wine_prefix w of
                      (Inl e, w0) \<Rightarrow> (False, w0)
                    | (Inr wine_prefix, w0) \<Rightarrow>
                        (case subprocess_run
                                \<lparr>argv = [wine_exe w0, ''regedit'', tmp_reg_file w0],
                                 timeout = None,
                                 env_wineprefix = Some (path_str wine_prefix)\<rparr> w0 of
                           (Completed rc out err, w1) \<Rightarrow> (rc = 0, w1)
                         | (_, w1) \<Rightarrow> (False, w1)))))"

section \<open>The server and its capture endpoint\<close>

record user_info =
  user_id :: string
  username :: string
  email :: string

record server =
  port :: nat
  auth_token :: "string option"
  user_info :: "user_info option"
  last_auth_params :: "(string \<rightharpoonup> string) option"
  redirect_uri_used :: "string option"

text \<open>
  \<open>_store_auth_payload\<close>. The value of \<open>_inject_registry_payload\<close> and the value of
  \<open>_write_auth_code_to_cb_file\<close> are both dropped, as in the source.
\<close>

definition store_auth_payload :: "server \<Rightarrow> world \<Rightarrow> (string \<rightharpoonup> string) \<Rightarrow> bool \<times> world" where
  "store_auth_payload srv w params =
     (case get_wine_prefix w of
        (Inl e, w0) \<Rightarrow> (False, w0)
      | (Inr wine_prefix, w0) \<Rightarrow>
          (let token_file = joinpath (joinpath (joinpath (joinpath wine_prefix
                              ''drive_c'') ''users'') ''Public'') ''sv2_auth_token.json''
           in case mkdir_parents (parent token_file) (filesys w0) of
                (Inl e, fs1) \<Rightarrow> (False, w0\<lparr>filesys := fs1\<rparr>)
              | (Inr u, fs1) \<Rightarrow>
                  (case write_json token_file (AuthPayload (auth_token srv) params) fs1 of
                     Inl e \<Rightarrow> (False, w0\<lparr>filesys := fs1\<rparr>)
                   | Inr fs2 \<Rightarrow>
                       (let w1 = snd (inject_registry_payload (w0\<lparr>filesys := fs2\<rparr>) params);
                            auth_code = params ''code''
                        in if truthy auth_code
                           then (True, snd (write_auth_code_to_cb_file w1 (or_empty auth_code)))
                           else (True, w1)))))"

datatype page =
    ForwardedPage
  | ForwardFailedPage
  | TokenAcceptedPage
  | InvalidCallbackJson
  | NoTokenJson

datatype response = Response (status_code: nat) (body: page)

text \<open>
  \<open>auth_callback_handler\<close>. The class defines no \<open>_inject_auth_token\<close>, so the call on
  the access-token path raises \<open>AttributeError\<close> out of the handler.
\<close>

definition auth_callback_handler ::
    "server \<Rightarrow> world \<Rightarrow> (string \<rightharpoonup> string) \<Rightarrow> (exn + response) \<times> server \<times> world" where
  "auth_callback_handler srv w params =
     (let srv1 = srv\<lparr>last_auth_params := Some params\<rparr>
      in if params ''code'' \<noteq> None then
           (case store_auth_payload srv1 w params of
              (success, w1) \<Rightarrow>
                if success then (Inr (Response 200 ForwardedPage), srv1, w1)
                else (Inr (Response 500 ForwardFailedPage), srv1, w1))
         else
           (let access_token = py_or (params ''access_token'') (params ''token'')
            in if truthy access_token then
                 (let srv2 = srv1\<lparr>auth_token := access_token,
                       user_info := Some
                         \<lparr>user_id = or_empty (py_or (params ''user_id'') (params ''uid'')),
                          username = or_empty (py_or (params ''username'') (params ''user'')),
                          email = or_empty (params ''email'')\<rparr>\<rparr>
                  in (Inl (AttributeError ''_inject_auth_token''), srv2, w))
               else (Inr (Response 400 InvalidCallbackJson), srv1, w)))"

text \<open>
  \<open>auth_status_handler\<close>: the three fields of its JSON answer. An empty parameter
  map is falsy in Python and has no \<open>code\<close> key either.
\<close>

record status =
  authenticated :: bool
  has_auth_code :: bool
  status_user_info :: "user_info option"

definition auth_status_handler :: "server \<Rightarrow> status" where
  "auth_status_handler srv =
     \<lparr>authenticated = (auth_token srv \<noteq> None),
      has_auth_code = (case last_auth_params srv of
                         None \<Rightarrow> False
                       | Some m \<Rightarrow> m ''code'' \<noteq> None),
      status_user_info = user_info srv\<rparr>"

definition auth_inject_handler :: "server \<Rightarrow> exn + response" where
  "auth_inject_handler srv =
     (if \<not> truthy (auth_token srv) then Inr (Response 400 NoTokenJson)
      else Inl (AttributeError ''_inject_auth_token''))"

section \<open>Environment resolver: the executable and path translation\<close>

text \<open>
  \<open>_find_sv2_executable\<close>: three known places, probed in order, then the first match
  of a recursive search. The exception of a probe leaves the function; the search has
  its own \<open>try\<close> (an empty list stands for a search that raised, too).
\<close>

fun first_existing :: "path list \<Rightarrow> filesystem \<Rightarrow> (exn + path option) \<times> filesystem" where
  "first_existing [] fs = (Inr None, fs)"
| "first_existing (candidate # candidates) fs =
     (case exists candidate fs of
        (Inl e, fs1) \<Rightarrow> (Inl e, fs1)
      | (Inr True, fs1) \<Rightarrow> (Inr (Some candidate), fs1)
      | (Inr False, fs1) \<Rightarrow> first_existing candidates fs1)"

definition find_sv2_executable :: "world \<Rightarrow> string \<Rightarrow> (exn + path option) \<times> world" where
  "find_sv2_executable w wine_prefix =
     (let prefix_path = parse_path wine_prefix;
          drive_c = joinpath prefix_path ''drive_c'';
          candidates =
            [joinpath (joinpath drive_c ''svstudio2_app'') ''synthv-studio.exe'',
             joinpath (joinpath (joinpath (joinpath drive_c ''Program Files'')
               ''Dreamtonics'') ''Synthesizer V Studio 2'') ''synthv-studio.exe'',
             joinpath (joinpath (joinpath (joinpath drive_c ''Program Files (x86)'')
               ''Dreamtonics'') ''Synthesizer V Studio 2'') ''synthv-studio.exe'']
      in case first_existing candidates (filesys w) of
           (Inl e, fs1) \<Rightarrow> (Inl e, w\<lparr>filesys := fs1\<rparr>)
         | (Inr (Some candidate), fs1) \<Rightarrow> (Inr (Some candidate), w\<lparr>filesys := fs1\<rparr>)
         | (Inr None, fs1) \<Rightarrow>
             (case rglob w drive_c ''synthv-studio.exe'' of
                [] \<Rightarrow> (Inr None, w\<lparr>filesys := fs1\<rparr>)
              | found # _ \<Rightarrow> (Inr (Some found), w\<lparr>filesys := fs1\<rparr>)))"

text \<open>
  \<open>_to_windows_path\<close>. It reads the file system only through \<open>Path.resolve\<close>, which is
  its first argument here, and gives back a string, or the exception of one of the two
  \<open>resolve\<close> calls (they stand before the \<open>try\<close>), and nothing else.
\<close>

definition to_windows_path :: "(path \<Rightarrow> exn + path) \<Rightarrow> path \<Rightarrow> string \<Rightarrow> exn + string" where
  "to_windows_path resolve_fn unix_path wine_prefix =
     (case resolve_fn (parse_path wine_prefix) of
        Inl e \<Rightarrow> Inl e
      | Inr prefix' \<Rightarrow>
          (case resolve_fn unix_path of
             Inl e \<Rightarrow> Inl e
           | Inr path \<Rightarrow>
               (case relative_to path (joinpath prefix' ''drive_c'') of
                  Some rel \<Rightarrow> Inr (''C:'' @ [backslash] @ str_join [backslash] rel)
                | None \<Rightarrow> Inr (path_str unix_path))))"

text \<open>
  Modelled from the spec: the reverse mapping of \<open>translatePath\<close> ("translating then
  reverse-mapping (given the same root) recovers p") has no counterpart in the source.
  It is taken to be the reading of a guest path on drive \<open>C:\<close> below the drive directory of
  the given root, one component per backslash-separated segment; any other string is
  read as the host path it spells.
\<close>

definition from_windows_path :: "path \<Rightarrow> string \<Rightarrow> path" where
  "from_windows_path drive_root s =
     (if prefix (''C:'' @ [backslash]) s
      then (let drive_c = joinpath drive_root ''drive_c''
            in Path (root drive_c)
                 (parts drive_c @ filter (\<lambda>c. c \<noteq> []) (split_on backslash (drop 3 s))))
      else parse_path s)"

section \<open>The delivery fallback chain\<close>

text \<open>The error signatures each method looks for in the captured standard error.\<close>

definition shell_error :: "string \<Rightarrow> bool" where
  "shell_error stderr_text =
     (str_contains ''/bin/sh'' stderr_text
      \<or> str_contains ''unexpected'' (lower stderr_text)
      \<or> str_contains ''ShellExecuteEx failed'' stderr_text)"

definition cmd_error :: "string \<Rightarrow> bool" where
  "cmd_error stderr_text =
     (str_contains ''Executable file path does not exist'' stderr_text
      \<or> str_contains ''ShellExecuteEx'' stderr_text
      \<or> str_contains ''/bin/sh'' stderr_text
      \<or> str_contains ''unexpected'' (lower stderr_text))"

definition rundll32_shell_error :: "string \<Rightarrow> bool" where
  "rundll32_shell_error stderr_text =
     (str_contains ''/bin/sh'' stderr_text
      \<or> str_contains ''unexpected'' (lower stderr_text))"

definition shell_cmd :: "string \<Rightarrow> string" where
  "shell_cmd uri = ''start '' @ [dquote, dquote] @ '' '' @ [dquote] @ uri @ [dquote]"

definition bottles_shell_cmd :: "string \<Rightarrow> string \<Rightarrow> command" where
  "bottles_shell_cmd bottle uri =
     \<lparr>argv = bottles_cli @ [''shell'', ''-b'', bottle, ''-i'', shell_cmd uri],
      timeout = Some 15, env_wineprefix = None\<rparr>"

definition system32 :: "string \<Rightarrow> string" where
  "system32 exe = ''C:'' @ [backslash] @ ''windows'' @ [backslash] @ ''system32'' @ [backslash] @ exe"

definition bottles_batch_cmd :: "string \<Rightarrow> command" where
  "bottles_batch_cmd bottle =
     \<lparr>argv = bottles_cli @ [''run'', ''-b'', bottle, ''-e'', system32 ''cmd.exe'', ''/c'',
                ''C:'' @ [backslash] @ ''sv2_open_uri.bat''],
      timeout = Some 8, env_wineprefix = None\<rparr>"

definition bottles_rundll32_cmd :: "string \<Rightarrow> string \<Rightarrow> command" where
  "bottles_rundll32_cmd bottle uri =
     \<lparr>argv = bottles_cli @ [''run'', ''-b'', bottle, ''-e'', system32 ''rundll32.exe'',
                ''url.dll,FileProtocolHandler'', uri],
      timeout = Some 8, env_wineprefix = None\<rparr>"

definition bottles_direct_cmd :: "string \<Rightarrow> string \<Rightarrow> string \<Rightarrow> command" where
  "bottles_direct_cmd bottle exe_win_path uri =
     \<lparr>argv = bottles_cli @ [''run'', ''-b'', bottle, ''-e'', exe_win_path, uri],
      timeout = Some 8, env_wineprefix = None\<rparr>"

definition bat_content :: string where
  "bat_content =
     ''@echo off'' @ [newline] @ ''setlocal'' @ [newline] @
     ''set /p SV2_URI=<C:'' @ [backslash] @ ''sv2_uri.txt'' @ [newline] @
     ''start '' @ [dquote, dquote] @ '' '' @ [dquote] @ ''%SV2_URI%'' @ [dquote] @ [newline]"

text \<open>
  \<open>forward_uri_to_wine\<close>, the managed branch, one definition per method, last first.
  Each \<open>try\<close> returns \<open>True\<close> only from its own test; a timeout or any other exception
  of the command is caught and the next method follows. What stands outside every
  \<open>try\<close> raises out of the function: \<open>get_wine_prefix\<close> and the two \<open>write_text\<close> calls
  of method 1, and the search for the executable and its path translation in method 3.
\<close>

definition direct_launch :: "string \<Rightarrow> string \<Rightarrow> string \<Rightarrow> world \<Rightarrow> (exn + bool) \<times> world" where
  "direct_launch uri bottle exe_win_path w =
     (case subprocess_run (bottles_direct_cmd bottle exe_win_path uri) w of
        (Completed rc out err, w1) \<Rightarrow> (Inr (rc = 0), w1)
      | (TimeoutExpired, w1) \<Rightarrow> (Inr False, w1)
      | (RunError, w1) \<Rightarrow> (Inr False, w1))"

definition method3_direct :: "string \<Rightarrow> string \<Rightarrow> path \<Rightarrow> world \<Rightarrow> (exn + bool) \<times> world" where
  "method3_direct uri bottle wine_prefix w =
     (case find_sv2_executable w (path_str wine_prefix) of
        (Inl e, w0) \<Rightarrow> (Inl e, w0)
      | (Inr None, w0) \<Rightarrow>
          direct_launch uri bottle
            (''C:'' @ [backslash] @ ''svstudio2_app'' @ [backslash] @ ''synthv-studio.exe'') w0
      | (Inr (Some exe_path), w0) \<Rightarrow>
          (case to_windows_path (resolve w0) exe_path (path_str wine_prefix) of
             Inl e \<Rightarrow> (Inl e, w0)
           | Inr exe_win_path \<Rightarrow> direct_launch uri bottle exe_win_path w0))"

definition method2_rundll32 :: "string \<Rightarrow> string \<Rightarrow> path \<Rightarrow> world \<Rightarrow> (exn + bool) \<times> world" where
  "method2_rundll32 uri bottle wine_prefix w =
     (case subprocess_run (bottles_rundll32_cmd bottle uri) w of
        (Completed rc out err, w1) \<Rightarrow>
          if rc = 0 \<and> \<not> rundll32_shell_error err then (Inr True, w1)
          else method3_direct uri bottle wine_prefix w1
      | (TimeoutExpired, w1) \<Rightarrow> method3_direct uri bottle wine_prefix w1
      | (RunError, w1) \<Rightarrow> method3_direct uri bottle wine_prefix w1)"

text \<open>The batch method once its two files are written.\<close>

definition batch_run :: "string \<Rightarrow> string \<Rightarrow> path \<Rightarrow> world \<Rightarrow> (exn + bool) \<times> world" where
  "batch_run uri bottle wine_prefix w =
     (case subprocess_run (bottles_batch_cmd bottle) w of
        (Completed rc out err, w1) \<Rightarrow>
          if rc = 0 \<and> \<not> cmd_error err then (Inr True, w1)
          else method2_rundll32 uri bottle wine_prefix w1
      | (TimeoutExpired, w1) \<Rightarrow> method2_rundll32 uri bottle wine_prefix w1
      | (RunError, w1) \<Rightarrow> method2_rundll32 uri bottle wine_prefix w1)"

definition method1_batch :: "string \<Rightarrow> string \<Rightarrow> world \<Rightarrow> (exn + bool) \<times> world" where
  "method1_batch uri bottle w =
     (case get_wine_prefix w of
        (Inl e, w0) \<Rightarrow> (Inl e, w0)
      | (Inr wine_prefix, w0) \<Rightarrow>
          (let uri_path = joinpath (joinpath wine_prefix ''drive_c'') ''sv2_uri.txt'';
               bat_path = joinpath (joinpath wine_prefix ''drive_c'') ''sv2_open_uri.bat''
           in case write_text uri_path uri (filesys w0) of
                (Inl e, fs1) \<Rightarrow> (Inl e, w0\<lparr>filesys := fs1\<rparr>)
              | (Inr u, fs1) \<Rightarrow>
                  (case write_text bat_path bat_content fs1 of
                     (Inl e, fs2) \<Rightarrow> (Inl e, w0\<lparr>filesys := fs2\<rparr>)
                   | (Inr u', fs2) \<Rightarrow> batch_run uri bottle wine_prefix (w0\<lparr>filesys := fs2\<rparr>))))"

definition method0_shell :: "string \<Rightarrow> string \<Rightarrow> world \<Rightarrow> (exn + bool) \<times> world" where
  "method0_shell uri bottle w =
     (case subprocess_run (bottles_shell_cmd bottle uri) w of
        (Completed rc out err, w1) \<Rightarrow>
          if rc = 0 \<and> \<not> shell_error err then (Inr True, w1)
          else method1_batch uri bottle w1
      | (TimeoutExpired, w1) \<Rightarrow> method1_batch uri bottle w1
      | (RunError, w1) \<Rightarrow> method1_batch uri bottle w1)"

text \<open>The plain branch: one \<open>try\<close> around both commands, judged by exit code alone.\<close>

definition wine_start_cmd :: "world \<Rightarrow> string \<Rightarrow> command" where
  "wine_start_cmd w uri =
     \<lparr>argv = [wine_exe w, ''start'', uri], timeout = None,
      env_wineprefix = Some (wineprefix_env w)\<rparr>"

definition wine_rundll32_cmd :: "world \<Rightarrow> string \<Rightarrow> command" where
  "wine_rundll32_cmd w uri =
     \<lparr>argv = [wine_exe w, ''rundll32'', ''url.dll,FileProtocolHandler'', uri], timeout = None,
      env_wineprefix = Some (wineprefix_env w)\<rparr>"

definition plain_chain :: "string \<Rightarrow> world \<Rightarrow> (exn + bool) \<times> world" where
  "plain_chain uri w =
     (case subprocess_run (wine_start_cmd w uri) w of
        (Completed rc out err, w1) \<Rightarrow>
          if rc = 0 then (Inr True, w1)
          else (case subprocess_run (wine_rundll32_cmd w uri) w1 of
                  (Completed rc2 out2 err2, w2) \<Rightarrow> (Inr (rc2 = 0), w2)
                | (TimeoutExpired, w2) \<Rightarrow> (Inr False, w2)
                | (RunError, w2) \<Rightarrow> (Inr False, w2))
      | (TimeoutExpired, w1) \<Rightarrow> (Inr False, w1)
      | (RunError, w1) \<Rightarrow> (Inr False, w1))"

definition managed :: "world \<Rightarrow> string option \<Rightarrow> bool" where
  "managed w bottle_name =
     (truthy (py_or bottle_name (environ w ''SV2_BOTTLE_NAME'')) \<and> which w ''flatpak'')"

definition forward_uri_to_wine :: "string \<Rightarrow> string option \<Rightarrow> world \<Rightarrow> (exn + bool) \<times> world" where
  "forward_uri_to_wine uri bottle_name w =
     (let bottle = py_or bottle_name (environ w ''SV2_BOTTLE_NAME'')
      in if truthy bottle \<and> which w ''flatpak''
         then method0_shell uri (or_empty bottle) w
         else plain_chain uri w)"

section \<open>Vocabulary of the properties\<close>

text \<open>The commands run between two states of the surroundings.\<close>

definition attempts :: "world \<Rightarrow> world \<Rightarrow> command list" where
  "attempts w w' = drop (length (calls w)) (calls w')"

text \<open>
  When the chain counts the outcome of its \<open>k\<close>-th method (from 0) as a success:
  exit code zero and, for the first three managed methods, none of that method's
  signatures in the standard error.
\<close>

definition classified_success :: "bool \<Rightarrow> nat \<Rightarrow> proc_result \<Rightarrow> bool" where
  "classified_success is_managed k r =
     (case r of
        Completed rc out err \<Rightarrow>
          rc = 0 \<and>
          (if \<not> is_managed then True
           else if k = 0 then \<not> shell_error err
           else if k = 1 then \<not> cmd_error err
           else if k = 2 then \<not> rundll32_shell_error err
           else True)
      | TimeoutExpired \<Rightarrow> False
      | RunError \<Rightarrow> False)"

text \<open>
  From method \<open>k\<close> on, a run that takes the surroundings from \<open>w\<close> to the outcome
  \<open>out\<close> halts at its first success: the commands it ran extend the log, and any of
  them whose outcome counts as a success is the last one, with \<open>True\<close> as the result.
\<close>

definition halts_at_first_success ::
    "bool \<Rightarrow> nat \<Rightarrow> world \<Rightarrow> (exn + bool) \<times> world \<Rightarrow> bool" where
  "halts_at_first_success is_managed k w out =
     (run (snd out) = run w \<and>
      (\<exists>as. calls (snd out) = calls w @ as \<and>
         (\<forall>i < length as.
            classified_success is_managed (k + i) (run w (as ! i)) \<longrightarrow>
            Suc i = length as \<and> fst out = Inr True)))"


text \<open>
  From managed method \<open>k\<close> on, a run goes on after every failure: an attempt that does
  not count as a success and is not the fourth method's is followed by another
  attempt, unless it was the first or the third method's and the run then raised
  (in what the second or the fourth method does before its command). A run that made
  no attempt at all is such a raise, of the second or the fourth method.
\<close>

definition continues_after_failure :: "nat \<Rightarrow> world \<Rightarrow> (exn + bool) \<times> world \<Rightarrow> bool" where
  "continues_after_failure k w out =
     (\<exists>as. calls (snd out) = calls w @ as \<and>
        (as = [] \<longrightarrow> (k = 1 \<or> k = 3) \<and> (\<exists>e. fst out = Inl e)) \<and>
        (\<forall>i < length as.
           \<not> classified_success True (k + i) (run w (as ! i)) \<and> k + i < 3 \<longrightarrow>
           Suc i < length as \<or> ((k + i = 0 \<or> k + i = 2) \<and> (\<exists>e. fst out = Inl e))))"

text \<open>The file system after the given paths have been handed to \<open>Path.exists\<close>.\<close>

definition probed :: "path list \<Rightarrow> filesystem \<Rightarrow> filesystem" where
  "probed ps fs = fs\<lparr>exists_calls := exists_calls fs @ ps\<rparr>"

section \<open>Concrete surroundings\<close>

text \<open>
  Small, fully explicit states at which the properties below are evaluated. The home
  directory is \<open>/home/u\<close>; with no \<open>WINEPREFIX\<close> set the prefix is \<open>/home/u/.wine-sv2\<close>.
\<close>

definition wine_sv2 :: "string list" where
  "wine_sv2 = [''home'', ''u'', ''.wine-sv2'']"

definition roaming_license :: "string list" where
  "roaming_license =
     [''AppData'', ''Roaming'', ''Dreamtonics'', ''Synthesizer V Studio 2'', ''license'']"

text \<open>
  A file system with the given entries on which nothing is refused, every probe
  answers, every string is written as it is, and no probe has been made yet.
\<close>

definition disk :: "(path \<rightharpoonup> node) \<Rightarrow> filesystem" where
  "disk es =
     \<lparr>entries = es, denied = (\<lambda>_. False), stat_fails = (\<lambda>_. False), encode = Some,
      exists_calls = []\<rparr>"

text \<open>Nothing on disk, no environment variable, no external program available.\<close>

definition world_bare :: world where
  "world_bare =
     \<lparr>environ = Map.empty, home = ''/home/u'', which = (\<lambda>_. False),
      filesys = disk Map.empty,
      run = (\<lambda>_. RunError), calls = [], resolve = Inr, rglob = (\<lambda>_ _. []),
      loop_time = ''0'', tmp_reg_file = ''/tmp/tmp0.reg''\<rparr>"

text \<open>Only the license directory of \<open>Public\<close> exists; no cv file anywhere.\<close>

definition world_public_only :: world where
  "world_public_only =
     world_bare\<lparr>filesys := disk
       [Path ''/'' (wine_sv2 @ [''drive_c'', ''users'', ''Public''] @ roaming_license) \<mapsto> Dir]\<rparr>"

text \<open>The license directory of \<open>steamuser\<close> exists, without a cv file.\<close>

definition world_steam_dir :: world where
  "world_steam_dir =
     world_bare\<lparr>filesys := disk
       [Path ''/'' (wine_sv2 @ [''drive_c'', ''users'', ''steamuser''] @ roaming_license) \<mapsto> Dir]\<rparr>"

text \<open>
  The same, but the candidate taken from \<open>USER\<close> cannot be probed: its cv path makes
  \<open>stat\<close> fail.
\<close>

definition world_steam_dir_locked :: world where
  "world_steam_dir_locked =
     world_bare\<lparr>filesys := (disk
       [Path ''/'' (wine_sv2 @ [''drive_c'', ''users'', ''steamuser''] @ roaming_license) \<mapsto> Dir])
       \<lparr>stat_fails := (\<lambda>p. p =
          Path ''/'' (wine_sv2 @ [''drive_c'', ''users'', ''user''] @ roaming_license @ [''cv'']))\<rparr>\<rparr>"

text \<open>The license directory of \<open>steamuser\<close> exists and holds a cv file.\<close>

definition world_steam_cv :: world where
  "world_steam_cv =
     world_bare\<lparr>filesys := disk
       [Path ''/'' (wine_sv2 @ [''drive_c'', ''users'', ''steamuser''] @ roaming_license) \<mapsto> Dir,
        Path ''/'' (wine_sv2 @ [''drive_c'', ''users'', ''steamuser''] @ roaming_license @ [''cv''])
          \<mapsto> File (Bytes ''verifier'')]\<rparr>"


text \<open>
  The license directory of \<open>Public\<close>, the second candidate, holds the only cv file; the
  third candidate cannot be probed.
\<close>

definition world_public_cv :: world where
  "world_public_cv =
     world_bare\<lparr>filesys := (disk
       [Path ''/'' (wine_sv2 @ [''drive_c'', ''users'', ''Public''] @ roaming_license) \<mapsto> Dir,
        Path ''/'' (wine_sv2 @ [''drive_c'', ''users'', ''Public''] @ roaming_license @ [''cv''])
          \<mapsto> File (Bytes ''verifier'')])
       \<lparr>stat_fails := (\<lambda>p. p =
          Path ''/'' (wine_sv2 @ [''drive_c'', ''users'', ''user''] @ roaming_license @ [''cv'']))\<rparr>\<rparr>"

definition server0 :: server where
  "server0 =
     \<lparr>port = 8888, auth_token = None, user_info = None, last_auth_params = None,
      redirect_uri_used = None\<rparr>"

text \<open>A server that has captured a code before.\<close>

definition server_after_code :: server where
  "server_after_code = server0\<lparr>last_auth_params := Some [''code'' \<mapsto> ''abc123'']\<rparr>"

definition uri0 :: string where
  "uri0 = ''dreamtonics-svstudio2://auth/callback?code=abc123''"

text \<open>
  A managed environment: the bottle \<open>sv2\<close> is configured, its directory and drive exist,
  \<open>flatpak\<close> is installed, and external commands answer as the given function says.
\<close>

definition bottle_sv2 :: "string list" where
  "bottle_sv2 =
     [''home'', ''u'', ''.var'', ''app'', ''com.usebottles.bottles'', ''data'', ''bottles'',
      ''bottles'', ''sv2'']"

definition world_bottle :: "(command \<Rightarrow> proc_result) \<Rightarrow> world" where
  "world_bottle answers =
     world_bare\<lparr>environ := [''SV2_BOTTLE_NAME'' \<mapsto> ''sv2''],
       which := (\<lambda>prog. prog = ''flatpak''),
       filesys := disk
         [Path ''/'' bottle_sv2 \<mapsto> Dir, Path ''/'' (bottle_sv2 @ [''drive_c'']) \<mapsto> Dir],
       run := answers\<rparr>"


text \<open>The same bottle, where the first of these places cannot be probed.\<close>

definition world_bottle_locked :: "(command \<Rightarrow> proc_result) \<Rightarrow> world" where
  "world_bottle_locked answers =
     (world_bottle answers)\<lparr>filesys := (disk
         [Path ''/'' bottle_sv2 \<mapsto> Dir, Path ''/'' (bottle_sv2 @ [''drive_c'']) \<mapsto> Dir])
       \<lparr>stat_fails := (\<lambda>p. p =
          Path ''/'' (bottle_sv2 @ [''drive_c'', ''svstudio2_app'', ''synthv-studio.exe'']))\<rparr>\<rparr>"

text \<open>Every command exits with code zero and a shell complaint on standard error.\<close>

definition answers_sh_complaint :: "command \<Rightarrow> proc_result" where
  "answers_sh_complaint = (\<lambda>_. Completed 0 [] ''/bin/sh: syntax error'')"

text \<open>Only the shell-bridge command draws the shell complaint; the others are clean.\<close>

definition answers_shell_only :: "command \<Rightarrow> proc_result" where
  "answers_shell_only =
     (\<lambda>cmd. if cmd = bottles_shell_cmd ''sv2'' uri0
            then Completed 0 [] ''/bin/sh: syntax error''
            else Completed 0 [] [])"



text \<open>A plain environment whose \<open>wine\<close> exits with code zero and a shell complaint.\<close>

definition world_plain_complaint :: world where
  "world_plain_complaint = world_bare\<lparr>run := answers_sh_complaint\<rparr>"

text \<open>A plain environment whose \<open>wine start\<close> fails and whose \<open>rundll32\<close> works.\<close>

definition world_plain_second :: world where
  "world_plain_second =
     world_bare\<lparr>run := (\<lambda>cmd. if argv cmd = [''wine'', ''start'', uri0]
                              then Completed 1 [] [] else Completed 0 [] [])\<rparr>"

text \<open>
  Host paths: a file name with a backslash and a nested file below the drive
  directory, the executable's usual place, and a path outside the prefix written with
  two leading slashes.
\<close>

definition path_backslash :: path where
  "path_backslash = Path ''/'' (wine_sv2 @ [''drive_c'', ''a'' @ [backslash] @ ''b''])"

definition path_nested :: path where
  "path_nested = Path ''/'' (wine_sv2 @ [''drive_c'', ''a'', ''b''])"

definition path_exe :: path where
  "path_exe = Path ''/'' (wine_sv2 @ [''drive_c'', ''svstudio2_app'', ''synthv-studio.exe''])"

definition path_outside :: path where
  "path_outside = Path ''//'' [''tmp'', ''x.exe'']"

text \<open>
  \<open>world_bare\<close> during a capture of the code \<open>abc123\<close>: first with the directories down
  to \<open>users/Public\<close> and the payload file made and \<open>wine regedit\<close> tried, then with the
  three cv files and the license directory of \<open>steamuser\<close> probed as well.
\<close>

definition world_bare_payload :: world where
  "world_bare_payload =
     world_bare\<lparr>filesys := disk
       [Path ''/'' [''home''] \<mapsto> Dir,
        Path ''/'' [''home'', ''u''] \<mapsto> Dir,
        Path ''/'' [''home'', ''u'', ''.wine-sv2''] \<mapsto> Dir,
        Path ''/'' [''home'', ''u'', ''.wine-sv2'', ''drive_c''] \<mapsto> Dir,
        Path ''/'' [''home'', ''u'', ''.wine-sv2'', ''drive_c'', ''users''] \<mapsto> Dir,
        Path ''/'' [''home'', ''u'', ''.wine-sv2'', ''drive_c'', ''users'', ''Public''] \<mapsto> Dir,
        Path ''/'' [''home'', ''u'', ''.wine-sv2'', ''drive_c'', ''users'', ''Public'',
                   ''sv2_auth_token.json'']
          \<mapsto> File (AuthPayload None [''code'' \<mapsto> ''abc123''])],
       calls :=
         [\<lparr>argv = [''wine'', ''regedit'', ''/tmp/tmp0.reg''], timeout = None,
           env_wineprefix = Some ''/home/u/.wine-sv2''\<rparr>]\<rparr>"

definition world_bare_stored :: world where
  "world_bare_stored =
     world_bare_payload\<lparr>filesys := (filesys world_bare_payload)\<lparr>exists_calls :=
       [Path ''/'' (wine_sv2 @ [''drive_c'', ''users'', ''steamuser''] @ roaming_license @ [''cv'']),
        Path ''/'' (wine_sv2 @ [''drive_c'', ''users'', ''Public''] @ roaming_license @ [''cv'']),
        Path ''/'' (wine_sv2 @ [''drive_c'', ''users'', ''user''] @ roaming_license @ [''cv'']),
        Path ''/'' (wine_sv2 @ [''drive_c'', ''users'', ''steamuser''] @ roaming_license)]\<rparr>\<rparr>"

text \<open>
  The bottle's file system once the batch method has resolved the prefix and written
  its two files, and once the direct launch has looked for the executable as well.
\<close>

definition fs_bottle_batch :: filesystem where
  "fs_bottle_batch =
     (disk
        [Path ''/'' bottle_sv2 \<mapsto> Dir,
         Path ''/'' (bottle_sv2 @ [''drive_c'']) \<mapsto> Dir,
         Path ''/'' (bottle_sv2 @ [''drive_c'', ''sv2_uri.txt'']) \<mapsto> File (Bytes uri0),
         Path ''/'' (bottle_sv2 @ [''drive_c'', ''sv2_open_uri.bat'']) \<mapsto> File (Bytes bat_content)])
     \<lparr>exists_calls := [Path ''/'' bottle_sv2]\<rparr>"



section \<open>Paths: basic facts\<close>

lemma split_on_no_sep: "sep \<notin> set s \<Longrightarrow> split_on sep s = [s]"
  by (induction s) auto

lemma parse_root_name: "CHR ''/'' \<notin> set s \<Longrightarrow> parse_root s = []"
  by (cases s) (auto simp: parse_root_def)

lemma joinpath_name:
  "s \<noteq> [] \<Longrightarrow> CHR ''/'' \<notin> set s \<Longrightarrow> s \<noteq> ''.'' \<Longrightarrow>
   joinpath p s = Path (root p) (parts p @ [s])"
  by (simp add: joinpath_def parse_path_def split_on_no_sep parse_root_name Let_def)

lemma license_dir_name:
  "u \<noteq> [] \<Longrightarrow> CHR ''/'' \<notin> set u \<Longrightarrow> u \<noteq> ''.'' \<Longrightarrow>
   license_dir p u = Path (root p) (parts p @ [''drive_c'', ''users'', u] @ roaming_license)"
  by (simp add: license_dir_def joinpath_name roaming_license_def)

lemma cv_file_eq:
  "cv_file p u = Path (root (license_dir p u)) (parts (license_dir p u) @ [''cv''])"
  by (simp add: cv_file_def joinpath_name)

lemma cb_file_eq:
  "cb_file p u = Path (root (license_dir p u)) (parts (license_dir p u) @ [''cb''])"
  by (simp add: cb_file_def joinpath_name)

lemma parse_home_wine_sv2: "parse_path ''/home/u/.wine-sv2'' = Path ''/'' wine_sv2"
  by (simp add: parse_path_def parse_root_def wine_sv2_def)

lemma prefix_no_bottle:
  "environ w ''SV2_BOTTLE_NAME'' = None \<Longrightarrow> environ w ''WINEPREFIX'' = None \<Longrightarrow>
   home w = ''/home/u'' \<Longrightarrow> get_wine_prefix w = (Inr (Path ''/'' wine_sv2), w)"
  by (simp add: get_wine_prefix_def wineprefix_env_def rstrip_def parse_home_wine_sv2)

text \<open>\<open>get_wine_prefix\<close> touches nothing but the record of probes.\<close>

lemma get_wine_prefix_world:
  "\<exists>ps. snd (get_wine_prefix w) = w\<lparr>filesys := probed ps (filesys w)\<rparr>"
proof (cases "\<exists>b. environ w ''SV2_BOTTLE_NAME'' = Some b \<and> b \<noteq> []")
  case True
  then show ?thesis
    by (auto simp: get_wine_prefix_def exists_def probed_def Let_def split: option.splits bool.splits)
next
  case False
  then have "snd (get_wine_prefix w) = w\<lparr>filesys := probed [] (filesys w)\<rparr>"
    by (auto simp: get_wine_prefix_def probed_def split: option.splits)
  then show ?thesis by blast
qed

lemma get_wine_prefix_keeps:
  assumes "get_wine_prefix w = (r, w1)"
  shows "environ w1 = environ w" and "run w1 = run w" and "calls w1 = calls w"
    and "possible_users w1 = possible_users w"
  using get_wine_prefix_world[of w] assms by (auto simp: possible_users_def)

lemma probed_fields [simp]:
  "entries (probed ps fs) = entries fs" "denied (probed ps fs) = denied fs"
  "stat_fails (probed ps fs) = stat_fails fs" "encode (probed ps fs) = encode fs"
  "exists_calls (probed ps fs) = exists_calls fs @ ps"
  by (simp_all add: probed_def)

lemma probed_probed [simp]: "probed qs (probed ps fs) = probed (ps @ qs) fs"
  by (simp add: probed_def)

lemma can_write_probed [simp]: "can_write (probed ps fs) p = can_write fs p"
  by (simp add: can_write_def)

lemma exists_probed:
  "exists p fs = (if stat_fails fs p then Inl OSError else Inr (entries fs p \<noteq> None), probed [p] fs)"
  by (simp add: exists_def probed_def)

section \<open>The cb file handoff\<close>

lemma cv_loop_none:
  "\<forall>u \<in> set us. \<not> stat_fails fs (cv_file p u) \<and> entries fs (cv_file p u) = None \<Longrightarrow>
   cv_loop p c us fs = (None, probed (map (cv_file p) us) fs)"
proof (induction us arbitrary: fs)
  case Nil
  then show ?case by (simp add: probed_def)
next
  case (Cons a us)
  from Cons.prems have "cv_loop p c us (probed [cv_file p a] fs) =
      (None, probed (map (cv_file p) us) (probed [cv_file p a] fs))"
    by (intro Cons.IH) simp
  with Cons.prems show ?case by (simp add: exists_probed)
qed




lemma concrete_prefix:
  "get_wine_prefix world_steam_cv = (Inr (Path ''/'' wine_sv2), world_steam_cv)"
  "get_wine_prefix world_public_cv = (Inr (Path ''/'' wine_sv2), world_public_cv)"
  "get_wine_prefix world_steam_dir = (Inr (Path ''/'' wine_sv2), world_steam_dir)"
  "get_wine_prefix world_steam_dir_locked = (Inr (Path ''/'' wine_sv2), world_steam_dir_locked)"
  "get_wine_prefix world_public_only = (Inr (Path ''/'' wine_sv2), world_public_only)"
  by (rule prefix_no_bottle;
      simp add: world_steam_cv_def world_public_cv_def world_steam_dir_def
        world_steam_dir_locked_def world_public_only_def world_bare_def)+

lemma concrete_users:
  "possible_users world_steam_cv = [''steamuser'', ''Public'', ''user'']"
  "possible_users world_public_cv = [''steamuser'', ''Public'', ''user'']"
  "possible_users world_steam_dir = [''steamuser'', ''Public'', ''user'']"
  "possible_users world_steam_dir_locked = [''steamuser'', ''Public'', ''user'']"
  "possible_users world_public_only = [''steamuser'', ''Public'', ''user'']"
  by (simp_all add: possible_users_def world_steam_cv_def world_public_cv_def world_steam_dir_def
        world_steam_dir_locked_def world_public_only_def world_bare_def)


text \<open>
  C3, as the code has it. Let the prefix resolve and let the cv file of every candidate
  be probed without error and be absent. Then all that counts is \<open>steamuser\<close>: the code
  is written, as the locale encodes it, and the result is \<open>True\<close> exactly when the
  license directory of \<open>steamuser\<close> can be probed and exists, its cb file can be
  written and the encoding accepts the code. In every other case the result is \<open>False\<close>
  and nothing is written (a refused encoding leaves the cb file of \<open>steamuser\<close> empty).
  The directories of the other candidates play no part.
\<close>

theorem cb_fallback_steamuser:
  assumes "get_wine_prefix w = (Inr wp, w1)"
    and "\<forall>u \<in> set (possible_users w).
           \<not> stat_fails (filesys w1) (cv_file wp u) \<and> entries (filesys w1) (cv_file wp u) = None"
  shows "write_auth_code_to_cb_file w c =
     (let fs2 = probed (map (cv_file wp) (possible_users w) @ [license_dir wp ''steamuser''])
                  (filesys w1)
      in if \<not> stat_fails (filesys w1) (license_dir wp ''steamuser'') \<and>
            entries (filesys w1) (license_dir wp ''steamuser'') \<noteq> None \<and>
            can_write (filesys w1) (cb_file wp ''steamuser'')
         then (case encode (filesys w1) c of
                 Some bs \<Rightarrow>
                   (True, w1\<lparr>filesys := fs2\<lparr>entries :=
                      (entries (filesys w1))(cb_file wp ''steamuser'' \<mapsto> File (Bytes bs))\<rparr>\<rparr>)
               | None \<Rightarrow>
                   (False, w1\<lparr>filesys := fs2\<lparr>entries :=
                      (entries (filesys w1))(cb_file wp ''steamuser'' \<mapsto> File (Bytes []))\<rparr>\<rparr>))
         else (False, w1\<lparr>filesys := fs2\<rparr>))"
proof -
  have u: "possible_users w1 = possible_users w"
    by (rule get_wine_prefix_keeps(4)[OF assms(1)])
  show ?thesis
    using cv_loop_none[OF assms(2), of c]
    by (simp add: write_auth_code_to_cb_file_def assms(1) u exists_probed write_text_def
          cb_file_def Let_def split: option.splits bool.splits)
qed

text \<open>The fallback where the directory of \<open>steamuser\<close> exists without a cv file.\<close>

theorem cb_fallback_steamuser_witness:
  "write_auth_code_to_cb_file world_steam_dir ''abc123'' =
     (True, world_steam_dir\<lparr>filesys :=
        (probed [Path ''/'' (wine_sv2 @ [''drive_c'', ''users'', ''steamuser''] @ roaming_license @ [''cv'']),
                 Path ''/'' (wine_sv2 @ [''drive_c'', ''users'', ''Public''] @ roaming_license @ [''cv'']),
                 Path ''/'' (wine_sv2 @ [''drive_c'', ''users'', ''user''] @ roaming_license @ [''cv'']),
                 Path ''/'' (wine_sv2 @ [''drive_c'', ''users'', ''steamuser''] @ roaming_license)]
           (filesys world_steam_dir))\<lparr>entries :=
        (entries (filesys world_steam_dir))
          (Path ''/'' (wine_sv2 @ [''drive_c'', ''users'', ''steamuser''] @ roaming_license @ [''cb''])
             \<mapsto> File (Bytes ''abc123''))\<rparr>\<rparr>)"
proof -
  have a: "\<forall>u \<in> set (possible_users world_steam_dir).
             \<not> stat_fails (filesys world_steam_dir) (cv_file (Path ''/'' wine_sv2) u) \<and>
             entries (filesys world_steam_dir) (cv_file (Path ''/'' wine_sv2) u) = None"
    by (simp add: concrete_users cv_file_eq license_dir_name world_steam_dir_def disk_def
          wine_sv2_def roaming_license_def)
  have b: "\<not> stat_fails (filesys world_steam_dir) (license_dir (Path ''/'' wine_sv2) ''steamuser'')"
      "entries (filesys world_steam_dir) (license_dir (Path ''/'' wine_sv2) ''steamuser'') \<noteq> None"
      "can_write (filesys world_steam_dir) (cb_file (Path ''/'' wine_sv2) ''steamuser'')"
      "encode (filesys world_steam_dir) ''abc123'' = Some ''abc123''"
    by (simp_all add: cb_file_eq license_dir_name can_write_def parent_def world_steam_dir_def
          disk_def wine_sv2_def roaming_license_def)
  from cb_fallback_steamuser[OF concrete_prefix(3) a, of "''abc123''"] b
  show ?thesis
    by (simp add: concrete_users cv_file_eq cb_file_eq license_dir_name Let_def)
qed

text \<open>
  C3 as stated fails: with no cv file anywhere and the license directory of \<open>Public\<close>
  (the second candidate) in place, nothing is written and the result is \<open>False\<close>.
\<close>

theorem cb_first_existing_counterexample:
  "write_auth_code_to_cb_file world_public_only ''abc123'' =
     (False, world_public_only\<lparr>filesys := probed
        [Path ''/'' (wine_sv2 @ [''drive_c'', ''users'', ''steamuser''] @ roaming_license @ [''cv'']),
         Path ''/'' (wine_sv2 @ [''drive_c'', ''users'', ''Public''] @ roaming_license @ [''cv'']),
         Path ''/'' (wine_sv2 @ [''drive_c'', ''users'', ''user''] @ roaming_license @ [''cv'']),
         Path ''/'' (wine_sv2 @ [''drive_c'', ''users'', ''steamuser''] @ roaming_license)]
        (filesys world_public_only)\<rparr>) \<and>
   possible_users world_public_only = [''steamuser'', ''Public'', ''user''] \<and>
   entries (filesys world_public_only) (license_dir (Path ''/'' wine_sv2) ''Public'') = Some Dir \<and>
   entries (filesys world_public_only) (cv_file (Path ''/'' wine_sv2) ''steamuser'') = None \<and>
   entries (filesys world_public_only) (cv_file (Path ''/'' wine_sv2) ''Public'') = None \<and>
   entries (filesys world_public_only) (cv_file (Path ''/'' wine_sv2) ''user'') = None"
proof -
  have e: "entries (filesys world_public_only) (license_dir (Path ''/'' wine_sv2) ''Public'') = Some Dir"
      "entries (filesys world_public_only) (cv_file (Path ''/'' wine_sv2) ''steamuser'') = None"
      "entries (filesys world_public_only) (cv_file (Path ''/'' wine_sv2) ''Public'') = None"
      "entries (filesys world_public_only) (cv_file (Path ''/'' wine_sv2) ''user'') = None"
      "entries (filesys world_public_only) (license_dir (Path ''/'' wine_sv2) ''steamuser'') = None"
    by (simp_all add: cv_file_eq license_dir_name world_public_only_def disk_def wine_sv2_def
          roaming_license_def)
  have s: "stat_fails (filesys world_public_only) = (\<lambda>_. False)"
    by (simp add: world_public_only_def disk_def)
  have "write_auth_code_to_cb_file world_public_only ''abc123'' =
     (False, world_public_only\<lparr>filesys := probed
        [cv_file (Path ''/'' wine_sv2) ''steamuser'', cv_file (Path ''/'' wine_sv2) ''Public'',
         cv_file (Path ''/'' wine_sv2) ''user'', license_dir (Path ''/'' wine_sv2) ''steamuser'']
        (filesys world_public_only)\<rparr>)"
    by (simp add: write_auth_code_to_cb_file_def concrete_prefix concrete_users exists_probed
          e s Let_def)
  then show ?thesis
    using e by (simp add: concrete_users cv_file_eq license_dir_name)
qed

text \<open>
  Why C3 needs its proviso on probing: with no cv file anywhere and the license
  directory of \<open>steamuser\<close> in place and writable, a third candidate whose cv path
  cannot be probed ends the function with \<open>False\<close> before the fallback is reached.
\<close>

lemma cb_unprobeable_candidate:
  "write_auth_code_to_cb_file world_steam_dir_locked ''abc123'' =
     (False, world_steam_dir_locked\<lparr>filesys := probed
        [Path ''/'' (wine_sv2 @ [''drive_c'', ''users'', ''steamuser''] @ roaming_license @ [''cv'']),
         Path ''/'' (wine_sv2 @ [''drive_c'', ''users'', ''Public''] @ roaming_license @ [''cv'']),
         Path ''/'' (wine_sv2 @ [''drive_c'', ''users'', ''user''] @ roaming_license @ [''cv''])]
        (filesys world_steam_dir_locked)\<rparr>)"
proof -
  have e: "entries (filesys world_steam_dir_locked) (cv_file (Path ''/'' wine_sv2) ''steamuser'') = None"
      "entries (filesys world_steam_dir_locked) (cv_file (Path ''/'' wine_sv2) ''Public'') = None"
      "\<not> stat_fails (filesys world_steam_dir_locked) (cv_file (Path ''/'' wine_sv2) ''steamuser'')"
      "\<not> stat_fails (filesys world_steam_dir_locked) (cv_file (Path ''/'' wine_sv2) ''Public'')"
      "stat_fails (filesys world_steam_dir_locked) (cv_file (Path ''/'' wine_sv2) ''user'')"
    by (simp_all add: cv_file_eq license_dir_name world_steam_dir_locked_def disk_def wine_sv2_def
          roaming_license_def)
  have "write_auth_code_to_cb_file world_steam_dir_locked ''abc123'' =
     (False, world_steam_dir_locked\<lparr>filesys := probed
        [cv_file (Path ''/'' wine_sv2) ''steamuser'', cv_file (Path ''/'' wine_sv2) ''Public'',
         cv_file (Path ''/'' wine_sv2) ''user''] (filesys world_steam_dir_locked)\<rparr>)"
    by (simp add: write_auth_code_to_cb_file_def concrete_prefix concrete_users exists_probed e)
  then show ?thesis by (simp add: cv_file_eq license_dir_name)
qed

section \<open>The payload store and the capture endpoint\<close>

lemma mkdir_bare:
  "mkdir_parents (Path ''/'' [''home'', ''u'', ''.wine-sv2'', ''drive_c'', ''users'', ''Public''])
     (disk Map.empty) =
     (Inr (), disk [Path ''/'' [''home''] \<mapsto> Dir, Path ''/'' [''home'', ''u''] \<mapsto> Dir,
              Path ''/'' [''home'', ''u'', ''.wine-sv2''] \<mapsto> Dir,
              Path ''/'' [''home'', ''u'', ''.wine-sv2'', ''drive_c''] \<mapsto> Dir,
              Path ''/'' [''home'', ''u'', ''.wine-sv2'', ''drive_c'', ''users''] \<mapsto> Dir,
              Path ''/'' [''home'', ''u'', ''.wine-sv2'', ''drive_c'', ''users'', ''Public''] \<mapsto> Dir])"
  by (simp add: mkdir_parents_def disk_def)

lemma prefix_bare_like:
  "get_wine_prefix world_bare = (Inr (Path ''/'' wine_sv2), world_bare)"
  "get_wine_prefix (world_bare\<lparr>filesys := fs\<rparr>) =
     (Inr (Path ''/'' wine_sv2), world_bare\<lparr>filesys := fs\<rparr>)"
  "get_wine_prefix (world_bare\<lparr>filesys := fs, calls := cs\<rparr>) =
     (Inr (Path ''/'' wine_sv2), world_bare\<lparr>filesys := fs, calls := cs\<rparr>)"
  by (rule prefix_no_bottle; simp add: world_bare_def)+

lemma prefix_bare_stored:
  "get_wine_prefix world_bare_payload = (Inr (Path ''/'' wine_sv2), world_bare_payload)"
  "get_wine_prefix world_bare_stored = (Inr (Path ''/'' wine_sv2), world_bare_stored)"
  by (rule prefix_no_bottle;
      simp add: world_bare_stored_def world_bare_payload_def world_bare_def)+

lemma users_bare_stored:
  "possible_users world_bare_payload = [''steamuser'', ''Public'', ''user'']"
  "possible_users world_bare_stored = [''steamuser'', ''Public'', ''user'']"
  by (simp_all add: possible_users_def world_bare_stored_def world_bare_payload_def world_bare_def)

lemma encode_disk: "encode (disk es) = Some"
  by (simp add: disk_def)

lemma inject_bare:
  "encode fs = Some \<Longrightarrow>
   inject_registry_payload (world_bare\<lparr>filesys := fs\<rparr>) params =
     (False, world_bare\<lparr>filesys := fs,
        calls := [\<lparr>argv = [''wine'', ''regedit'', ''/tmp/tmp0.reg''], timeout = None,
                   env_wineprefix = Some ''/home/u/.wine-sv2''\<rparr>]\<rparr>)"
  by (simp add: inject_registry_payload_def prefix_bare_like subprocess_run_def Let_def)
     (simp add: world_bare_def wine_exe_def path_str_def wine_sv2_def)

text \<open>The cb writer where no cv file and no license directory of \<open>steamuser\<close> is there.\<close>

lemma cb_writer_nothing_there:
  assumes "get_wine_prefix w = (Inr (Path ''/'' wine_sv2), w)"
    and "possible_users w = [''steamuser'', ''Public'', ''user'']"
    and "stat_fails (filesys w) = (\<lambda>_. False)"
    and "entries (filesys w) (cv_file (Path ''/'' wine_sv2) ''steamuser'') = None"
    and "entries (filesys w) (cv_file (Path ''/'' wine_sv2) ''Public'') = None"
    and "entries (filesys w) (cv_file (Path ''/'' wine_sv2) ''user'') = None"
    and "entries (filesys w) (license_dir (Path ''/'' wine_sv2) ''steamuser'') = None"
  shows "write_auth_code_to_cb_file w c =
     (False, w\<lparr>filesys := probed
        [cv_file (Path ''/'' wine_sv2) ''steamuser'', cv_file (Path ''/'' wine_sv2) ''Public'',
         cv_file (Path ''/'' wine_sv2) ''user'', license_dir (Path ''/'' wine_sv2) ''steamuser'']
        (filesys w)\<rparr>)"
  using assms by (simp add: write_auth_code_to_cb_file_def exists_probed Let_def)

lemma store_bare_any:
  assumes "params ''code'' = Some c" "c \<noteq> []"
  shows "store_auth_payload srv world_bare params =
     (True, world_bare_stored\<lparr>filesys := (filesys world_bare_stored)\<lparr>entries :=
        (entries (filesys world_bare_stored))
          (Path ''/'' [''home'', ''u'', ''.wine-sv2'', ''drive_c'', ''users'', ''Public'',
                      ''sv2_auth_token.json'']
             \<mapsto> File (AuthPayload (auth_token srv) params))\<rparr>\<rparr>)"
proof -
  let ?fs2 = "(disk [Path ''/'' [''home''] \<mapsto> Dir, Path ''/'' [''home'', ''u''] \<mapsto> Dir,
              Path ''/'' [''home'', ''u'', ''.wine-sv2''] \<mapsto> Dir,
              Path ''/'' [''home'', ''u'', ''.wine-sv2'', ''drive_c''] \<mapsto> Dir,
              Path ''/'' [''home'', ''u'', ''.wine-sv2'', ''drive_c'', ''users''] \<mapsto> Dir,
              Path ''/'' [''home'', ''u'', ''.wine-sv2'', ''drive_c'', ''users'', ''Public''] \<mapsto> Dir])
            \<lparr>entries := (entries (disk [Path ''/'' [''home''] \<mapsto> Dir, Path ''/'' [''home'', ''u''] \<mapsto> Dir,
              Path ''/'' [''home'', ''u'', ''.wine-sv2''] \<mapsto> Dir,
              Path ''/'' [''home'', ''u'', ''.wine-sv2'', ''drive_c''] \<mapsto> Dir,
              Path ''/'' [''home'', ''u'', ''.wine-sv2'', ''drive_c'', ''users''] \<mapsto> Dir,
              Path ''/'' [''home'', ''u'', ''.wine-sv2'', ''drive_c'', ''users'', ''Public''] \<mapsto> Dir]))
               (Path ''/'' [''home'', ''u'', ''.wine-sv2'', ''drive_c'', ''users'', ''Public'',
                      ''sv2_auth_token.json'']
                 \<mapsto> File (AuthPayload (auth_token srv) params))\<rparr>"
  let ?w1 = "world_bare\<lparr>filesys := ?fs2,
        calls := [\<lparr>argv = [''wine'', ''regedit'', ''/tmp/tmp0.reg''], timeout = None,
                   env_wineprefix = Some ''/home/u/.wine-sv2''\<rparr>]\<rparr>"
  have f: "filesys world_bare = disk Map.empty" by (simp add: world_bare_def)
  have s: "store_auth_payload srv world_bare params =
             (True, snd (write_auth_code_to_cb_file ?w1 c))"
    using assms
    by (simp add: store_auth_payload_def prefix_bare_like joinpath_name parent_def wine_sv2_def
          f mkdir_bare write_json_def can_write_def Let_def inject_bare encode_disk or_empty_def)
       (simp add: disk_def)
  have u: "possible_users ?w1 = [''steamuser'', ''Public'', ''user'']"
    by (simp add: possible_users_def world_bare_def)
  have w: "write_auth_code_to_cb_file ?w1 c =
     (False, ?w1\<lparr>filesys := probed
        [cv_file (Path ''/'' wine_sv2) ''steamuser'', cv_file (Path ''/'' wine_sv2) ''Public'',
         cv_file (Path ''/'' wine_sv2) ''user'', license_dir (Path ''/'' wine_sv2) ''steamuser'']
        (filesys ?w1)\<rparr>)"
    by (rule cb_writer_nothing_there[OF prefix_bare_like(3) u])
       (simp_all add: cv_file_eq license_dir_name disk_def wine_sv2_def roaming_license_def)
  show ?thesis
    unfolding s w
    by (simp add: world_bare_stored_def world_bare_payload_def world_bare_def disk_def probed_def
          cv_file_eq license_dir_name wine_sv2_def roaming_license_def)
qed

text \<open>
  What \<open>_store_auth_payload\<close> returns is decided before the cb file is attempted: it is
  \<open>True\<close> exactly when the payload file could be written.
\<close>

lemma store_auth_payload_value:
  "fst (store_auth_payload srv w params) =
     (case get_wine_prefix w of
        (Inl e, w0) \<Rightarrow> False
      | (Inr wine_prefix, w0) \<Rightarrow>
          (case mkdir_parents
                  (parent (joinpath (joinpath (joinpath (joinpath wine_prefix
                     ''drive_c'') ''users'') ''Public'') ''sv2_auth_token.json'')) (filesys w0) of
             (Inl e, fs1) \<Rightarrow> False
           | (Inr u, fs1) \<Rightarrow>
               can_write fs1 (joinpath (joinpath (joinpath (joinpath wine_prefix
                     ''drive_c'') ''users'') ''Public'') ''sv2_auth_token.json'')))"
  by (simp add: store_auth_payload_def write_json_def Let_def split: prod.splits sum.splits)

text \<open>
  C1. The value of \<open>_store_auth_payload\<close> is not whether the code was placed. With
  nothing on disk and the code \<open>abc123\<close>, it returns \<open>True\<close> and the capture endpoint
  answers with its success page (logging that the code was written), although
  \<open>_write_auth_code_to_cb_file\<close> found no license directory, returned \<open>False\<close> and
  wrote no cb file for any candidate identity.
\<close>

theorem store_reports_delivery_without_cb:
  "store_auth_payload server0 world_bare [''code'' \<mapsto> ''abc123''] = (True, world_bare_stored) \<and>
   fst (auth_callback_handler server0 world_bare [''code'' \<mapsto> ''abc123'']) =
     Inr (Response 200 ForwardedPage) \<and>
   write_auth_code_to_cb_file world_bare_payload ''abc123'' = (False, world_bare_stored) \<and>
   fst (write_auth_code_to_cb_file world_bare_stored ''abc123'') = False \<and>
   entries (filesys (snd (write_auth_code_to_cb_file world_bare_stored ''abc123''))) =
     entries (filesys world_bare_stored) \<and>
   possible_users world_bare_stored = [''steamuser'', ''Public'', ''user''] \<and>
   fst (get_wine_prefix world_bare_stored) = Inr (Path ''/'' wine_sv2) \<and>
   entries (filesys world_bare_stored) (cb_file (Path ''/'' wine_sv2) ''steamuser'') = None \<and>
   entries (filesys world_bare_stored) (cb_file (Path ''/'' wine_sv2) ''Public'') = None \<and>
   entries (filesys world_bare_stored) (cb_file (Path ''/'' wine_sv2) ''user'') = None"
proof -
  have s: "\<And>srv. auth_token srv = None \<Longrightarrow>
             store_auth_payload srv world_bare [''code'' \<mapsto> ''abc123''] = (True, world_bare_stored)"
    by (simp add: store_bare_any)
       (simp add: world_bare_stored_def world_bare_payload_def world_bare_def disk_def)
  have a: "store_auth_payload server0 world_bare [''code'' \<mapsto> ''abc123''] = (True, world_bare_stored)"
    by (rule s) (simp add: server0_def)
  have b: "fst (auth_callback_handler server0 world_bare [''code'' \<mapsto> ''abc123'']) =
             Inr (Response 200 ForwardedPage)"
    by (simp add: auth_callback_handler_def Let_def s server0_def)
  have e: "stat_fails (filesys world_bare_payload) = (\<lambda>_. False)"
      "entries (filesys world_bare_payload) (cv_file (Path ''/'' wine_sv2) ''steamuser'') = None"
      "entries (filesys world_bare_payload) (cv_file (Path ''/'' wine_sv2) ''Public'') = None"
      "entries (filesys world_bare_payload) (cv_file (Path ''/'' wine_sv2) ''user'') = None"
      "entries (filesys world_bare_payload) (license_dir (Path ''/'' wine_sv2) ''steamuser'') = None"
    by (simp_all add: cv_file_eq license_dir_name world_bare_payload_def world_bare_def disk_def
          wine_sv2_def roaming_license_def)
  have e': "stat_fails (filesys world_bare_stored) = (\<lambda>_. False)"
      "entries (filesys world_bare_stored) = entries (filesys world_bare_payload)"
    by (simp_all add: world_bare_stored_def world_bare_payload_def world_bare_def disk_def)
  have c: "write_auth_code_to_cb_file world_bare_payload ''abc123'' = (False, world_bare_stored)"
    by (simp add: cb_writer_nothing_there[OF prefix_bare_stored(1) users_bare_stored(1) e])
       (simp add: world_bare_stored_def world_bare_payload_def world_bare_def disk_def probed_def
          cv_file_eq license_dir_name)
  have c': "write_auth_code_to_cb_file world_bare_stored ''abc123'' =
      (False, world_bare_stored\<lparr>filesys := probed
        [cv_file (Path ''/'' wine_sv2) ''steamuser'', cv_file (Path ''/'' wine_sv2) ''Public'',
         cv_file (Path ''/'' wine_sv2) ''user'', license_dir (Path ''/'' wine_sv2) ''steamuser'']
        (filesys world_bare_stored)\<rparr>)"
    by (rule cb_writer_nothing_there[OF prefix_bare_stored(2) users_bare_stored(2)])
       (simp_all add: e e')
  have d: "entries (filesys world_bare_stored) (cb_file (Path ''/'' wine_sv2) ''steamuser'') = None"
          "entries (filesys world_bare_stored) (cb_file (Path ''/'' wine_sv2) ''Public'') = None"
          "entries (filesys world_bare_stored) (cb_file (Path ''/'' wine_sv2) ''user'') = None"
    by (simp_all add: e' cb_file_eq license_dir_name world_bare_payload_def world_bare_def disk_def
          wine_sv2_def roaming_license_def)
  from a b c c' d users_bare_stored(2) prefix_bare_stored(2) show ?thesis by simp
qed

text \<open>
  C2, as the code has it. A request with no \<open>code\<close> key and no non-empty \<open>access_token\<close>
  or \<open>token\<close> is answered with status 400; the stored token, the user info and the
  surroundings stay as they were, and the last-capture record becomes the request's
  parameter map.
\<close>

theorem capture_rejects_empty_request:
  assumes "params ''code'' = None"
    and "\<not> truthy (py_or (params ''access_token'') (params ''token''))"
  shows "auth_callback_handler srv w params =
           (Inr (Response 400 InvalidCallbackJson), srv\<lparr>last_auth_params := Some params\<rparr>, w)"
  using assms by (simp add: auth_callback_handler_def Let_def)

theorem capture_rejects_empty_request_witness:
  "auth_callback_handler server_after_code world_bare [''state'' \<mapsto> ''xyz''] =
     (Inr (Response 400 InvalidCallbackJson),
      server_after_code\<lparr>last_auth_params := Some [''state'' \<mapsto> ''xyz'']\<rparr>, world_bare)"
  using capture_rejects_empty_request[of "[''state'' \<mapsto> ''xyz'']" server_after_code world_bare]
  by (simp add: py_or_def)

text \<open>
  C2 as stated fails: after a code has been captured, a request with no parameter at
  all is answered with status 400 and flips \<open>has_auth_code\<close> of the status query from
  \<open>True\<close> to \<open>False\<close>.
\<close>

theorem capture_overwrites_last_params_counterexample:
  "has_auth_code (auth_status_handler server_after_code) = True \<and>
   fst (auth_callback_handler server_after_code world_bare Map.empty) =
     Inr (Response 400 InvalidCallbackJson) \<and>
   has_auth_code (auth_status_handler
     (fst (snd (auth_callback_handler server_after_code world_bare Map.empty)))) = False"
  by (simp add: auth_callback_handler_def auth_status_handler_def server_after_code_def
        server0_def py_or_def Let_def)

text \<open>
  C9. A request with no \<open>code\<close> key that carries an access token (the handler's own test:
  \<open>access_token or token\<close> is a non-empty string) first stores the token and the user
  info, then raises \<open>AttributeError\<close> for the missing \<open>_inject_auth_token\<close>: no response
  is produced, and the surroundings (file system, commands run) are untouched, so the
  cv/cb handoff never runs.
\<close>

theorem token_path_raises:
  assumes "params ''code'' = None"
    and "truthy (py_or (params ''access_token'') (params ''token''))"
  shows "auth_callback_handler srv w params =
           (Inl (AttributeError ''_inject_auth_token''),
            srv\<lparr>last_auth_params := Some params,
                auth_token := py_or (params ''access_token'') (params ''token''),
                user_info := Some
                  \<lparr>user_id = or_empty (py_or (params ''user_id'') (params ''uid'')),
                   username = or_empty (py_or (params ''username'') (params ''user'')),
                   email = or_empty (params ''email'')\<rparr>\<rparr>,
            w)"
  using assms by (simp add: auth_callback_handler_def Let_def)

theorem token_path_raises_witness:
  "auth_callback_handler server0 world_bare [''token'' \<mapsto> ''tok1'', ''user'' \<mapsto> ''ann''] =
     (Inl (AttributeError ''_inject_auth_token''),
      server0\<lparr>last_auth_params := Some [''token'' \<mapsto> ''tok1'', ''user'' \<mapsto> ''ann''],
              auth_token := Some ''tok1'',
              user_info := Some \<lparr>user_id = [], username = ''ann'', email = []\<rparr>\<rparr>,
      world_bare)"
  using token_path_raises[of "[''token'' \<mapsto> ''tok1'', ''user'' \<mapsto> ''ann'']" server0 world_bare]
  by (simp add: py_or_def or_empty_def)

text \<open>
  The same test on the injection endpoint: with a stored token it raises as well.
\<close>

lemma inject_handler_raises:
  "truthy (auth_token srv) \<Longrightarrow> auth_inject_handler srv = Inl (AttributeError ''_inject_auth_token'')"
  by (simp add: auth_inject_handler_def)

text \<open>
  C10. When the parameter map has a \<open>code\<close> key, whatever else it holds, the handler
  takes the code path only: the server state changes in its last-capture record and
  nowhere else (stored token and user info are as before), the surroundings are those
  left by \<open>_store_auth_payload\<close>, and the answer is one of the two pages of the code path.
\<close>

theorem code_takes_precedence:
  assumes "params ''code'' \<noteq> None"
  shows "fst (snd (auth_callback_handler srv w params)) = srv\<lparr>last_auth_params := Some params\<rparr> \<and>
         auth_token (fst (snd (auth_callback_handler srv w params))) = auth_token srv \<and>
         user_info (fst (snd (auth_callback_handler srv w params))) = user_info srv \<and>
         snd (snd (auth_callback_handler srv w params)) =
           snd (store_auth_payload (srv\<lparr>last_auth_params := Some params\<rparr>) w params) \<and>
         fst (auth_callback_handler srv w params) =
           (if fst (store_auth_payload (srv\<lparr>last_auth_params := Some params\<rparr>) w params)
            then Inr (Response 200 ForwardedPage) else Inr (Response 500 ForwardFailedPage))"
  using assms by (simp add: auth_callback_handler_def Let_def split: prod.splits)

theorem code_takes_precedence_witness:
  "[''code'' \<mapsto> ''abc123'', ''access_token'' \<mapsto> ''tok1''] ''code'' \<noteq> None \<and>
   [''code'' \<mapsto> ''abc123'', ''access_token'' \<mapsto> ''tok1''] ''access_token'' \<noteq> None \<and>
   auth_token (fst (snd (auth_callback_handler server0 world_bare
     [''code'' \<mapsto> ''abc123'', ''access_token'' \<mapsto> ''tok1'']))) = None \<and>
   user_info (fst (snd (auth_callback_handler server0 world_bare
     [''code'' \<mapsto> ''abc123'', ''access_token'' \<mapsto> ''tok1'']))) = None \<and>
   fst (auth_callback_handler server0 world_bare
     [''code'' \<mapsto> ''abc123'', ''access_token'' \<mapsto> ''tok1'']) = Inr (Response 200 ForwardedPage)"
  using code_takes_precedence[of "[''code'' \<mapsto> ''abc123'', ''access_token'' \<mapsto> ''tok1'']"
          server0 world_bare]
    store_bare_any[of "[''code'' \<mapsto> ''abc123'', ''access_token'' \<mapsto> ''tok1'']" "''abc123''"
          "server0\<lparr>last_auth_params := Some [''code'' \<mapsto> ''abc123'', ''access_token'' \<mapsto> ''tok1'']\<rparr>"]
  by (simp add: server0_def)

section \<open>The delivery fallback chain: halting and going on\<close>

lemma forward_managed:
  "managed w bottle_name \<Longrightarrow>
   forward_uri_to_wine uri bottle_name w =
     method0_shell uri (or_empty (py_or bottle_name (environ w ''SV2_BOTTLE_NAME''))) w"
  by (simp add: forward_uri_to_wine_def managed_def Let_def)

lemma forward_plain:
  "\<not> managed w bottle_name \<Longrightarrow> forward_uri_to_wine uri bottle_name w = plain_chain uri w"
  by (auto simp: forward_uri_to_wine_def managed_def Let_def)

text \<open>Looking for the executable touches nothing but the file system's record of probes.\<close>

lemma first_existing_probed: "\<exists>ps. snd (first_existing cs fs) = probed ps fs"
proof (induction cs arbitrary: fs)
  case Nil
  have "snd (first_existing [] fs) = probed [] fs" by (simp add: probed_def)
  then show ?case by blast
next
  case (Cons c cs)
  from Cons.IH[of "probed [c] fs"] obtain ps where
    "snd (first_existing cs (probed [c] fs)) = probed ([c] @ ps) fs" by auto
  moreover have "snd (first_existing (c # cs) fs) = probed [c] fs \<or>
        snd (first_existing (c # cs) fs) = snd (first_existing cs (probed [c] fs))"
    by (simp add: exists_probed split: bool.splits)
  ultimately show ?case by metis
qed

lemma find_sv2_executable_world:
  "\<exists>ps. snd (find_sv2_executable w s) = w\<lparr>filesys := probed ps (filesys w)\<rparr>"
proof -
  let ?d = "joinpath (parse_path s) ''drive_c''"
  let ?cs = "[joinpath (joinpath ?d ''svstudio2_app'') ''synthv-studio.exe'',
             joinpath (joinpath (joinpath (joinpath ?d ''Program Files'')
               ''Dreamtonics'') ''Synthesizer V Studio 2'') ''synthv-studio.exe'',
             joinpath (joinpath (joinpath (joinpath ?d ''Program Files (x86)'')
               ''Dreamtonics'') ''Synthesizer V Studio 2'') ''synthv-studio.exe'']"
  from first_existing_probed[of ?cs "filesys w"] obtain ps where
    p: "snd (first_existing ?cs (filesys w)) = probed ps (filesys w)" by blast
  have "snd (find_sv2_executable w s) = w\<lparr>filesys := snd (first_existing ?cs (filesys w))\<rparr>"
    by (simp add: find_sv2_executable_def Let_def
          split: prod.splits sum.splits option.splits list.splits)
  with p show ?thesis by auto
qed

lemma halts_stop:
  "halts_at_first_success m k w (Inr True, w\<lparr>calls := calls w @ [c]\<rparr>)"
  by (simp add: halts_at_first_success_def)

lemma halts_last:
  "(classified_success m k (run w c) \<longrightarrow> res = Inr True) \<Longrightarrow>
   halts_at_first_success m k w (res, w\<lparr>calls := calls w @ [c]\<rparr>)"
  by (simp add: halts_at_first_success_def)

lemma halts_none:
  "calls w' = calls w \<Longrightarrow> run w' = run w \<Longrightarrow> halts_at_first_success m k w (res, w')"
  by (simp add: halts_at_first_success_def)

lemma halts_step:
  assumes h: "halts_at_first_success m (Suc k) (w\<lparr>calls := calls w @ [c]\<rparr>) out"
    and n: "\<not> classified_success m k (run w c)"
  shows "halts_at_first_success m k w out"
proof -
  from h obtain as where r: "run (snd out) = run w"
    and c: "calls (snd out) = (calls w @ [c]) @ as"
    and a: "\<forall>i < length as. classified_success m (Suc k + i) (run w (as ! i)) \<longrightarrow>
              Suc i = length as \<and> fst out = Inr True"
    by (auto simp: halts_at_first_success_def)
  have "\<forall>i < length (c # as). classified_success m (k + i) (run w ((c # as) ! i)) \<longrightarrow>
          Suc i = length (c # as) \<and> fst out = Inr True"
  proof (intro allI impI)
    fix i assume i: "i < length (c # as)"
      and s: "classified_success m (k + i) (run w ((c # as) ! i))"
    show "Suc i = length (c # as) \<and> fst out = Inr True"
    proof (cases i)
      case 0
      with s n show ?thesis by simp
    next
      case (Suc j)
      with i s a show ?thesis by simp
    qed
  qed
  with r c show ?thesis
    unfolding halts_at_first_success_def by (intro conjI exI[of _ "c # as"]) simp_all
qed

lemma halts_filesys:
  "halts_at_first_success m k (w\<lparr>filesys := fs\<rparr>) out \<Longrightarrow> halts_at_first_success m k w out"
  by (simp add: halts_at_first_success_def)

lemma direct_launch_halts: "halts_at_first_success True 3 w (direct_launch uri b exe w)"
  by (auto simp: direct_launch_def subprocess_run_def classified_success_def
        intro!: halts_last split: proc_result.splits)

lemma method3_halts: "halts_at_first_success True 3 w (method3_direct uri b p w)"
proof -
  from find_sv2_executable_world[of w "path_str p"] obtain ps where
    w0: "snd (find_sv2_executable w (path_str p)) = w\<lparr>filesys := probed ps (filesys w)\<rparr>"
    by blast
  let ?w0 = "w\<lparr>filesys := probed ps (filesys w)\<rparr>"
  have d: "\<And>exe. halts_at_first_success True 3 w (direct_launch uri b exe ?w0)"
    by (rule halts_filesys) (rule direct_launch_halts)
  have n: "\<And>e. halts_at_first_success True 3 w (Inl e, ?w0)"
    by (rule halts_none) simp_all
  show ?thesis
    using w0 d n
    by (auto simp: method3_direct_def split: prod.splits sum.splits option.splits)
qed

lemma method2_halts: "halts_at_first_success True 2 w (method2_rundll32 uri b p w)"
proof (cases "classified_success True 2 (run w (bottles_rundll32_cmd b uri))")
  case True
  then show ?thesis
    by (auto simp: method2_rundll32_def subprocess_run_def classified_success_def
          intro!: halts_stop split: proc_result.splits)
next
  case False
  have "halts_at_first_success True (Suc 2) (w\<lparr>calls := calls w @ [bottles_rundll32_cmd b uri]\<rparr>)
          (method3_direct uri b p (w\<lparr>calls := calls w @ [bottles_rundll32_cmd b uri]\<rparr>))"
    using method3_halts by (simp add: numeral_3_eq_3 numeral_2_eq_2)
  from halts_step[OF this] False
  have "halts_at_first_success True 2 w
          (method3_direct uri b p (w\<lparr>calls := calls w @ [bottles_rundll32_cmd b uri]\<rparr>))"
    by simp
  with False show ?thesis
    by (auto simp: method2_rundll32_def subprocess_run_def classified_success_def
          split: proc_result.splits)
qed

lemma batch_run_halts: "halts_at_first_success True 1 w (batch_run uri b p w)"
proof (cases "classified_success True 1 (run w (bottles_batch_cmd b))")
  case True
  then show ?thesis
    by (auto simp: batch_run_def subprocess_run_def classified_success_def
          halts_at_first_success_def split: proc_result.splits)
next
  case False
  have "halts_at_first_success True (Suc 1) (w\<lparr>calls := calls w @ [bottles_batch_cmd b]\<rparr>)
          (method2_rundll32 uri b p (w\<lparr>calls := calls w @ [bottles_batch_cmd b]\<rparr>))"
    using method2_halts by (simp add: numeral_2_eq_2)
  from halts_step[OF this] False
  have "halts_at_first_success True 1 w
          (method2_rundll32 uri b p (w\<lparr>calls := calls w @ [bottles_batch_cmd b]\<rparr>))"
    by simp
  with False show ?thesis
    by (auto simp: batch_run_def subprocess_run_def classified_success_def
          split: proc_result.splits)
qed

lemma method1_halts: "halts_at_first_success True 1 w (method1_batch uri b w)"
proof -
  from get_wine_prefix_world[of w] obtain ps where
    w0: "snd (get_wine_prefix w) = w\<lparr>filesys := probed ps (filesys w)\<rparr>" by blast
  let ?w0 = "w\<lparr>filesys := probed ps (filesys w)\<rparr>"
  have r: "\<And>p fs. halts_at_first_success True 1 w (batch_run uri b p (?w0\<lparr>filesys := fs\<rparr>))"
    using halts_filesys[OF batch_run_halts] by simp
  have n: "\<And>e fs. halts_at_first_success True 1 w (Inl e, ?w0\<lparr>filesys := fs\<rparr>)"
    by (rule halts_none) simp_all
  have n0: "\<And>e. halts_at_first_success True 1 w (Inl e, ?w0)"
    by (rule halts_none) simp_all
  show ?thesis
    using w0 r n n0
    by (auto simp: method1_batch_def Let_def split: prod.splits sum.splits)
qed

lemma method0_halts: "halts_at_first_success True 0 w (method0_shell uri b w)"
proof (cases "classified_success True 0 (run w (bottles_shell_cmd b uri))")
  case True
  then show ?thesis
    by (auto simp: method0_shell_def subprocess_run_def classified_success_def
          intro!: halts_stop split: proc_result.splits)
next
  case False
  have "halts_at_first_success True (Suc 0) (w\<lparr>calls := calls w @ [bottles_shell_cmd b uri]\<rparr>)
          (method1_batch uri b (w\<lparr>calls := calls w @ [bottles_shell_cmd b uri]\<rparr>))"
    using method1_halts by simp
  from halts_step[OF this] False
  have "halts_at_first_success True 0 w
          (method1_batch uri b (w\<lparr>calls := calls w @ [bottles_shell_cmd b uri]\<rparr>))"
    by simp
  with False show ?thesis
    by (auto simp: method0_shell_def subprocess_run_def classified_success_def
          split: proc_result.splits)
qed

lemma plain_halts: "halts_at_first_success False 0 w (plain_chain uri w)"
proof (cases "classified_success False 0 (run w (wine_start_cmd w uri))")
  case True
  then show ?thesis
    by (auto simp: plain_chain_def subprocess_run_def classified_success_def
          intro!: halts_stop split: proc_result.splits)
next
  case False
  let ?w = "w\<lparr>calls := calls w @ [wine_start_cmd w uri]\<rparr>"
  let ?rest = "case run w (wine_rundll32_cmd w uri) of
                  Completed rc2 out2 err2 \<Rightarrow> Inr (rc2 = 0)
                | TimeoutExpired \<Rightarrow> Inr False
                | RunError \<Rightarrow> Inr False"
  have "halts_at_first_success False (Suc 0) ?w
          (?rest, ?w\<lparr>calls := calls ?w @ [wine_rundll32_cmd w uri]\<rparr>)"
    by (rule halts_last) (auto simp: classified_success_def split: proc_result.splits)
  from halts_step[OF this] False
  have a: "halts_at_first_success False 0 w
          (?rest, ?w\<lparr>calls := calls ?w @ [wine_rundll32_cmd w uri]\<rparr>)"
    by simp
  show ?thesis
  proof (cases "run w (wine_start_cmd w uri)")
    case (Completed rc out err)
    with False have "rc \<noteq> 0" by (simp add: classified_success_def)
    with Completed a show ?thesis
      by (auto simp: plain_chain_def subprocess_run_def split: proc_result.splits)
  next
    case TimeoutExpired
    then show ?thesis
      by (auto simp: plain_chain_def subprocess_run_def classified_success_def intro!: halts_last)
  next
    case RunError
    then show ?thesis
      by (auto simp: plain_chain_def subprocess_run_def classified_success_def intro!: halts_last)
  qed
qed

lemma forward_halts:
  "halts_at_first_success (managed w bottle_name) 0 w (forward_uri_to_wine uri bottle_name w)"
proof (cases "managed w bottle_name")
  case True
  then show ?thesis by (simp add: forward_managed method0_halts)
next
  case False
  then show ?thesis by (simp add: forward_plain plain_halts)
qed

text \<open>
  C7. Chain monotonicity, for both variants: in any run of \<open>forward_uri_to_wine\<close>, an
  attempt whose outcome the chain counts as a success is the last command the run
  invokes, and the run returns \<open>True\<close>. (The \<open>k\<close>-th attempt is the \<open>k\<close>-th method's:
  see \<open>managed_attempts_in_order\<close> for the managed variant.)
\<close>

theorem chain_halts_at_first_success:
  assumes "forward_uri_to_wine uri bottle_name w = (res, w')"
    and "k < length (attempts w w')"
    and "classified_success (managed w bottle_name) k (run w (attempts w w' ! k))"
  shows "Suc k = length (attempts w w') \<and> res = Inr True"
proof -
  from forward_halts[of w bottle_name uri] assms(1)
  obtain as where c: "calls w' = calls w @ as"
    and a: "\<forall>i < length as. classified_success (managed w bottle_name) (0 + i) (run w (as ! i)) \<longrightarrow>
              Suc i = length as \<and> res = Inr True"
    by (auto simp: halts_at_first_success_def)
  from c have "attempts w w' = as" by (simp add: attempts_def)
  with a assms(2,3) show ?thesis by simp
qed

lemma continues_stop:
  "classified_success True k (run w c) \<Longrightarrow>
   continues_after_failure k w (Inr True, w\<lparr>calls := calls w @ [c]\<rparr>)"
  by (simp add: continues_after_failure_def)












section \<open>The chain in the concrete surroundings\<close>

lemma sig_sh: "shell_error ''/bin/sh: syntax error''" "cmd_error ''/bin/sh: syntax error''"
  "rundll32_shell_error ''/bin/sh: syntax error''"
  by (simp_all add: shell_error_def cmd_error_def rundll32_shell_error_def)

lemma no_sig_empty: "\<not> shell_error []" "\<not> cmd_error []" "\<not> rundll32_shell_error []"
  by (simp_all add: shell_error_def cmd_error_def rundll32_shell_error_def lower_def)

text \<open>One step of the chain after an attempt that is not counted as a success.\<close>

lemma method0_moves_on:
  "run w (bottles_shell_cmd b uri) = Completed 0 out err \<Longrightarrow> shell_error err \<Longrightarrow>
   method0_shell uri b w = method1_batch uri b (w\<lparr>calls := calls w @ [bottles_shell_cmd b uri]\<rparr>)"
  by (simp add: method0_shell_def subprocess_run_def)



lemma managed_bottle: "managed (world_bottle a) None" "managed (world_bottle_locked a) None"
  by (simp_all add: managed_def world_bottle_def world_bottle_locked_def world_bare_def py_or_def)

lemma bottle_name_bottle:
  "or_empty (py_or None (environ (world_bottle a) ''SV2_BOTTLE_NAME'')) = ''sv2''"
  "or_empty (py_or None (environ (world_bottle_locked a) ''SV2_BOTTLE_NAME'')) = ''sv2''"
  by (simp_all add: world_bottle_def world_bottle_locked_def world_bare_def py_or_def or_empty_def)

lemma run_bottle: "run (world_bottle a) = a" "run (world_bottle_locked a) = a"
  by (simp_all add: world_bottle_def world_bottle_locked_def)

lemma calls_bottle: "calls (world_bottle a) = []" "calls (world_bottle_locked a) = []"
  by (simp_all add: world_bottle_def world_bottle_locked_def world_bare_def)

lemma batch_not_shell: "bottles_batch_cmd ''sv2'' \<noteq> bottles_shell_cmd ''sv2'' uri0"
  by (simp add: bottles_batch_cmd_def bottles_shell_cmd_def bottles_cli_def)

lemma bottles_prefix_path:
  "joinpath (joinpath (parse_path ''/home/u'')
      ''.var/app/com.usebottles.bottles/data/bottles/bottles'') ''sv2'' = Path ''/'' bottle_sv2"
  by (simp add: joinpath_def parse_path_def parse_root_def bottle_sv2_def Let_def)

text \<open>
  The batch method in a bottle like \<open>world_bottle\<close>, whatever paths cannot be probed
  as long as the bottle's own directory can: the prefix is the bottle, both files are
  written, and the batch command is next.
\<close>

lemma method1_bottle:
  assumes "environ w ''SV2_BOTTLE_NAME'' = Some ''sv2''" and "home w = ''/home/u''"
    and "filesys w = (disk [Path ''/'' bottle_sv2 \<mapsto> Dir,
                            Path ''/'' (bottle_sv2 @ [''drive_c'']) \<mapsto> Dir])\<lparr>stat_fails := sf\<rparr>"
    and "\<not> sf (Path ''/'' bottle_sv2)"
  shows "method1_batch uri0 ''sv2'' w =
           batch_run uri0 ''sv2'' (Path ''/'' bottle_sv2)
             (w\<lparr>filesys := fs_bottle_batch\<lparr>stat_fails := sf\<rparr>\<rparr>)"
proof -
  have p: "get_wine_prefix w =
      (Inr (Path ''/'' bottle_sv2), w\<lparr>filesys := probed [Path ''/'' bottle_sv2] (filesys w)\<rparr>)"
    using assms
    by (simp add: get_wine_prefix_def bottles_prefix_path exists_probed Let_def disk_def)
  show ?thesis
    unfolding method1_batch_def p
    by (simp add: assms(3) joinpath_name Let_def write_text_def can_write_def parent_def
          probed_def disk_def fs_bottle_batch_def bottle_sv2_def)
qed





lemma forward_shell_only:
  "forward_uri_to_wine uri0 None (world_bottle answers_shell_only) =
     (Inr True, (world_bottle answers_shell_only)\<lparr>filesys := fs_bottle_batch,
        calls := [bottles_shell_cmd ''sv2'' uri0, bottles_batch_cmd ''sv2'']\<rparr>)"
proof -
  let ?w = "world_bottle answers_shell_only"
  let ?c0 = "bottles_shell_cmd ''sv2'' uri0"
  let ?w1 = "?w\<lparr>calls := [?c0]\<rparr>"
  let ?w2 = "?w\<lparr>filesys := fs_bottle_batch, calls := [?c0]\<rparr>"
  have a0: "run ?w ?c0 = Completed 0 [] ''/bin/sh: syntax error''"
    by (simp add: run_bottle answers_shell_only_def)
  have a1: "run ?w (bottles_batch_cmd ''sv2'') = Completed 0 [] []"
    by (simp add: run_bottle answers_shell_only_def batch_not_shell)
  have f: "fs_bottle_batch\<lparr>stat_fails := (\<lambda>_. False)\<rparr> = fs_bottle_batch"
    by (simp add: fs_bottle_batch_def disk_def)
  have s0: "forward_uri_to_wine uri0 None ?w = method1_batch uri0 ''sv2'' ?w1"
    using method0_moves_on[OF a0 sig_sh(1)]
    by (simp add: forward_managed[OF managed_bottle(1)] bottle_name_bottle calls_bottle)
  have s1: "method1_batch uri0 ''sv2'' ?w1 = batch_run uri0 ''sv2'' (Path ''/'' bottle_sv2) ?w2"
    using method1_bottle[of ?w1 "\<lambda>_. False"]
    by (simp add: f) (simp add: world_bottle_def world_bare_def disk_def)
  have s2: "batch_run uri0 ''sv2'' (Path ''/'' bottle_sv2) ?w2 =
     (Inr True, ?w\<lparr>filesys := fs_bottle_batch, calls := [?c0, bottles_batch_cmd ''sv2'']\<rparr>)"
    by (simp add: batch_run_def subprocess_run_def a1 no_sig_empty)
  show ?thesis by (simp only: s0 s1 s2)
qed




lemma attempts_bottle:
  "attempts (world_bottle a) ((world_bottle a)\<lparr>filesys := fs, calls := cs\<rparr>) = cs"
  "attempts (world_bottle a) ((world_bottle a)\<lparr>calls := cs\<rparr>) = cs"
  by (simp_all add: attempts_def world_bottle_def world_bare_def)

text \<open>
  C7 at Scenario B: the shell bridge exits with code zero and a shell complaint, the
  batch method then succeeds; it is the second and last attempt.
\<close>

theorem chain_halts_at_first_success_witness:
  "attempts (world_bottle answers_shell_only)
     (snd (forward_uri_to_wine uri0 None (world_bottle answers_shell_only))) =
     [bottles_shell_cmd ''sv2'' uri0, bottles_batch_cmd ''sv2''] \<and>
   classified_success True 1 (answers_shell_only (bottles_batch_cmd ''sv2'')) \<and>
   fst (forward_uri_to_wine uri0 None (world_bottle answers_shell_only)) = Inr True"
proof -
  let ?w = "world_bottle answers_shell_only"
  let ?out = "forward_uri_to_wine uri0 None ?w"
  have e: "?out = (fst ?out, snd ?out)" by simp
  have a: "attempts ?w (snd ?out) = [bottles_shell_cmd ''sv2'' uri0, bottles_batch_cmd ''sv2'']"
    by (simp add: forward_shell_only attempts_bottle)
  have k: "1 < length (attempts ?w (snd ?out))" by (simp add: a)
  have s: "classified_success True 1 (answers_shell_only (bottles_batch_cmd ''sv2''))"
    by (simp add: answers_shell_only_def batch_not_shell classified_success_def no_sig_empty)
  then have s': "classified_success (managed ?w None) 1 (run ?w (attempts ?w (snd ?out) ! 1))"
    by (simp add: a managed_bottle(1) run_bottle(1))
  from chain_halts_at_first_success[OF e k s'] a s show ?thesis by simp
qed



text \<open>
  The commands of a managed run are the methods' commands, in the methods' order: the
  \<open>k\<close>-th attempt is the \<open>k\<close>-th method's.
\<close>

lemma direct_launch_order:
  "calls (snd (direct_launch uri b exe w)) = calls w @ [bottles_direct_cmd b exe uri]"
  by (simp add: direct_launch_def subprocess_run_def split: proc_result.splits)

lemma method3_order:
  "\<exists>exe as. calls (snd (method3_direct uri b p w)) = calls w @ as \<and>
     prefix as [bottles_direct_cmd b exe uri]"
proof -
  from find_sv2_executable_world[of w "path_str p"] obtain ps where
    w0: "snd (find_sv2_executable w (path_str p)) = w\<lparr>filesys := probed ps (filesys w)\<rparr>"
    by blast
  let ?w0 = "w\<lparr>filesys := probed ps (filesys w)\<rparr>"
  have "(\<exists>e. method3_direct uri b p w = (Inl e, ?w0)) \<or>
        (\<exists>exe. method3_direct uri b p w = direct_launch uri b exe ?w0)"
    using w0 by (auto simp: method3_direct_def split: prod.splits sum.splits option.splits)
  then show ?thesis
  proof
    assume "\<exists>e. method3_direct uri b p w = (Inl e, ?w0)"
    then show ?thesis by (intro exI[of _ "[]"]) auto
  next
    assume "\<exists>exe. method3_direct uri b p w = direct_launch uri b exe ?w0"
    then obtain exe where "method3_direct uri b p w = direct_launch uri b exe ?w0" by blast
    then show ?thesis
      using direct_launch_order[of uri b exe ?w0]
      by (intro exI[of _ exe] exI[of _ "[bottles_direct_cmd b exe uri]"]) simp
  qed
qed

lemma method2_order:
  "\<exists>exe as. calls (snd (method2_rundll32 uri b p w)) = calls w @ as \<and> as \<noteq> [] \<and>
     prefix as [bottles_rundll32_cmd b uri, bottles_direct_cmd b exe uri]"
proof -
  let ?w1 = "w\<lparr>calls := calls w @ [bottles_rundll32_cmd b uri]\<rparr>"
  from method3_order[of uri b p ?w1] obtain exe as where
    e: "calls (snd (method3_direct uri b p ?w1)) = calls w @ bottles_rundll32_cmd b uri # as"
    and p: "prefix as [bottles_direct_cmd b exe uri]"
    by auto
  have "method2_rundll32 uri b p w = (Inr True, ?w1) \<or>
        method2_rundll32 uri b p w = method3_direct uri b p ?w1"
    by (auto simp: method2_rundll32_def subprocess_run_def split: proc_result.splits)
  then show ?thesis
  proof
    assume "method2_rundll32 uri b p w = (Inr True, ?w1)"
    then show ?thesis
      by (intro exI[of _ exe] exI[of _ "[bottles_rundll32_cmd b uri]"]) simp
  next
    assume "method2_rundll32 uri b p w = method3_direct uri b p ?w1"
    with e p show ?thesis
      by (intro exI[of _ exe] exI[of _ "bottles_rundll32_cmd b uri # as"]) simp
  qed
qed

lemma batch_run_order:
  "\<exists>exe as. calls (snd (batch_run uri b p w)) = calls w @ as \<and> as \<noteq> [] \<and>
     prefix as [bottles_batch_cmd b, bottles_rundll32_cmd b uri, bottles_direct_cmd b exe uri]"
proof -
  let ?w1 = "w\<lparr>calls := calls w @ [bottles_batch_cmd b]\<rparr>"
  from method2_order[of uri b p ?w1] obtain exe as where
    e: "calls (snd (method2_rundll32 uri b p ?w1)) = calls w @ bottles_batch_cmd b # as"
    and p: "prefix as [bottles_rundll32_cmd b uri, bottles_direct_cmd b exe uri]"
    by auto
  have "batch_run uri b p w = (Inr True, ?w1) \<or>
        batch_run uri b p w = method2_rundll32 uri b p ?w1"
    by (auto simp: batch_run_def subprocess_run_def split: proc_result.splits)
  then show ?thesis
  proof
    assume "batch_run uri b p w = (Inr True, ?w1)"
    then show ?thesis
      by (intro exI[of _ exe] exI[of _ "[bottles_batch_cmd b]"]) simp
  next
    assume "batch_run uri b p w = method2_rundll32 uri b p ?w1"
    with e p show ?thesis
      by (intro exI[of _ exe] exI[of _ "bottles_batch_cmd b # as"]) simp
  qed
qed

lemma method1_order:
  "\<exists>exe as. calls (snd (method1_batch uri b w)) = calls w @ as \<and>
     prefix as [bottles_batch_cmd b, bottles_rundll32_cmd b uri, bottles_direct_cmd b exe uri]"
proof -
  obtain r w0 where g: "get_wine_prefix w = (r, w0)" by force
  have c0: "calls w0 = calls w" by (rule get_wine_prefix_keeps(3)[OF g])
  have run: "\<And>p fs. \<exists>exe as. calls (snd (batch_run uri b p (w0\<lparr>filesys := fs\<rparr>))) = calls w @ as \<and>
     prefix as [bottles_batch_cmd b, bottles_rundll32_cmd b uri, bottles_direct_cmd b exe uri]"
  proof -
    fix p fs
    from batch_run_order[of uri b p "w0\<lparr>filesys := fs\<rparr>"] c0 show
      "\<exists>exe as. calls (snd (batch_run uri b p (w0\<lparr>filesys := fs\<rparr>))) = calls w @ as \<and>
         prefix as [bottles_batch_cmd b, bottles_rundll32_cmd b uri, bottles_direct_cmd b exe uri]"
      by auto
  qed
  show ?thesis
  proof (cases r)
    case (Inl e)
    with g c0 have "calls (snd (method1_batch uri b w)) = calls w @ []"
      by (simp add: method1_batch_def)
    then show ?thesis by (intro exI[of _ "[]"]) auto
  next
    case (Inr wp)
    let ?u = "joinpath (joinpath wp ''drive_c'') ''sv2_uri.txt''"
    let ?b = "joinpath (joinpath wp ''drive_c'') ''sv2_open_uri.bat''"
    obtain r1 fs1 where w1: "write_text ?u uri (filesys w0) = (r1, fs1)" by force
    show ?thesis
    proof (cases r1)
      case (Inl e)
      with g Inr w1 c0 have "calls (snd (method1_batch uri b w)) = calls w @ []"
        by (simp add: method1_batch_def Let_def)
      then show ?thesis by (intro exI[of _ "[]"]) auto
    next
      case u1: (Inr u)
      obtain r2 fs2 where w2: "write_text ?b bat_content fs1 = (r2, fs2)" by force
      show ?thesis
      proof (cases r2)
        case (Inl e)
        with g Inr w1 u1 w2 c0 have "calls (snd (method1_batch uri b w)) = calls w @ []"
          by (simp add: method1_batch_def Let_def)
        then show ?thesis by (intro exI[of _ "[]"]) auto
      next
        case u2: (Inr u')
        with g Inr w1 u1 w2 have
          "method1_batch uri b w = batch_run uri b wp (w0\<lparr>filesys := fs2\<rparr>)"
          by (simp add: method1_batch_def Let_def)
        with run[of wp fs2] show ?thesis by simp
      qed
    qed
  qed
qed

lemma method0_order:
  "\<exists>exe as. calls (snd (method0_shell uri b w)) = calls w @ as \<and> as \<noteq> [] \<and>
     prefix as [bottles_shell_cmd b uri, bottles_batch_cmd b, bottles_rundll32_cmd b uri,
                bottles_direct_cmd b exe uri]"
proof -
  let ?w1 = "w\<lparr>calls := calls w @ [bottles_shell_cmd b uri]\<rparr>"
  from method1_order[of uri b ?w1] obtain exe as where
    e: "calls (snd (method1_batch uri b ?w1)) = calls w @ bottles_shell_cmd b uri # as"
    and p: "prefix as [bottles_batch_cmd b, bottles_rundll32_cmd b uri, bottles_direct_cmd b exe uri]"
    by auto
  have "method0_shell uri b w = (Inr True, ?w1) \<or>
        method0_shell uri b w = method1_batch uri b ?w1"
    by (auto simp: method0_shell_def subprocess_run_def split: proc_result.splits)
  then show ?thesis
  proof
    assume "method0_shell uri b w = (Inr True, ?w1)"
    then show ?thesis
      by (intro exI[of _ exe] exI[of _ "[bottles_shell_cmd b uri]"]) simp
  next
    assume "method0_shell uri b w = method1_batch uri b ?w1"
    with e p show ?thesis
      by (intro exI[of _ exe] exI[of _ "bottles_shell_cmd b uri # as"]) simp
  qed
qed

lemma managed_attempts_in_order:
  assumes "managed w bottle_name"
  shows "\<exists>exe. attempts w (snd (forward_uri_to_wine uri bottle_name w)) \<noteq> [] \<and>
     prefix (attempts w (snd (forward_uri_to_wine uri bottle_name w)))
       [bottles_shell_cmd (or_empty (py_or bottle_name (environ w ''SV2_BOTTLE_NAME''))) uri,
        bottles_batch_cmd (or_empty (py_or bottle_name (environ w ''SV2_BOTTLE_NAME''))),
        bottles_rundll32_cmd (or_empty (py_or bottle_name (environ w ''SV2_BOTTLE_NAME''))) uri,
        bottles_direct_cmd (or_empty (py_or bottle_name (environ w ''SV2_BOTTLE_NAME''))) exe uri]"
proof -
  let ?b = "or_empty (py_or bottle_name (environ w ''SV2_BOTTLE_NAME''))"
  from method0_order[of uri ?b w] obtain exe as where
    "calls (snd (method0_shell uri ?b w)) = calls w @ as" "as \<noteq> []"
    "prefix as [bottles_shell_cmd ?b uri, bottles_batch_cmd ?b, bottles_rundll32_cmd ?b uri,
                bottles_direct_cmd ?b exe uri]"
    by blast
  then show ?thesis
    by (intro exI[of _ exe]) (simp add: forward_managed[OF assms] attempts_def)
qed

text \<open>
  C8, as the code has it. A plain run invokes \<open>wine start\<close> and then, only when that
  command completed with a non-zero exit code, \<open>wine rundll32\<close>; a command that cannot
  be run ends the chain. The result is \<open>True\<close> exactly when the last command invoked
  exited with code zero: standard output and standard error are never looked at.
\<close>

theorem plain_chain_by_exit_code:
  assumes "\<not> managed w bottle_name"
    and "forward_uri_to_wine uri bottle_name w = (res, w')"
  shows "(attempts w w' = [wine_start_cmd w uri] \<or>
          attempts w w' = [wine_start_cmd w uri, wine_rundll32_cmd w uri]) \<and>
         (attempts w w' = [wine_start_cmd w uri, wine_rundll32_cmd w uri] \<longleftrightarrow>
            (\<exists>rc out err. run w (wine_start_cmd w uri) = Completed rc out err \<and> rc \<noteq> 0)) \<and>
         res = Inr (case run w (last (attempts w w')) of
                      Completed rc out err \<Rightarrow> rc = 0
                    | TimeoutExpired \<Rightarrow> False
                    | RunError \<Rightarrow> False)"
proof -
  from assms have p: "plain_chain uri w = (res, w')" by (simp add: forward_plain)
  show ?thesis
  proof (cases "run w (wine_start_cmd w uri)")
    case (Completed rc out err)
    show ?thesis
    proof (cases "rc = 0")
      case True
      with p Completed show ?thesis
        by (auto simp: plain_chain_def subprocess_run_def attempts_def)
    next
      case False
      with p Completed show ?thesis
        by (auto simp: plain_chain_def subprocess_run_def attempts_def split: proc_result.splits)
    qed
  next
    case TimeoutExpired
    with p show ?thesis by (auto simp: plain_chain_def subprocess_run_def attempts_def)
  next
    case RunError
    with p show ?thesis by (auto simp: plain_chain_def subprocess_run_def attempts_def)
  qed
qed

section \<open>The plain chain in concrete surroundings\<close>

lemma not_managed_bare: "\<not> managed (world_bare\<lparr>run := a\<rparr>) None"
  by (simp add: managed_def world_bare_def py_or_def)

lemma wine_cmds_bare:
  "wine_start_cmd (world_bare\<lparr>run := a\<rparr>) uri =
     \<lparr>argv = [''wine'', ''start'', uri], timeout = None,
      env_wineprefix = Some ''/home/u/.wine-sv2''\<rparr>"
  "wine_rundll32_cmd (world_bare\<lparr>run := a\<rparr>) uri =
     \<lparr>argv = [''wine'', ''rundll32'', ''url.dll,FileProtocolHandler'', uri], timeout = None,
      env_wineprefix = Some ''/home/u/.wine-sv2''\<rparr>"
  by (simp_all add: wine_start_cmd_def wine_rundll32_cmd_def wine_exe_def wineprefix_env_def
        rstrip_def world_bare_def)

text \<open>C8 where \<open>wine start\<close> exits with code 1 and \<open>wine rundll32\<close> with code 0.\<close>

theorem plain_chain_by_exit_code_witness:
  "attempts world_plain_second (snd (forward_uri_to_wine uri0 None world_plain_second)) =
     [wine_start_cmd world_plain_second uri0, wine_rundll32_cmd world_plain_second uri0] \<and>
   fst (forward_uri_to_wine uri0 None world_plain_second) = Inr True"
proof -
  let ?w = "world_plain_second"
  let ?out = "forward_uri_to_wine uri0 None ?w"
  have n: "\<not> managed ?w None"
    unfolding world_plain_second_def by (rule not_managed_bare)
  have e: "?out = (fst ?out, snd ?out)" by simp
  have r1: "run ?w (wine_start_cmd ?w uri0) = Completed 1 [] []"
    unfolding world_plain_second_def by (simp add: wine_cmds_bare)
  have r2: "run ?w (wine_rundll32_cmd ?w uri0) = Completed 0 [] []"
    unfolding world_plain_second_def by (simp add: wine_cmds_bare)
  from r1 have x: "\<exists>rc out err. run ?w (wine_start_cmd ?w uri0) = Completed rc out err \<and> rc \<noteq> 0"
    by simp
  from plain_chain_by_exit_code[OF n e] x
  have a: "attempts ?w (snd ?out) = [wine_start_cmd ?w uri0, wine_rundll32_cmd ?w uri0]"
    by blast
  from plain_chain_by_exit_code[OF n e] a r2 show ?thesis by simp
qed

text \<open>
  C8 as stated fails: in a plain run, exit code zero with a shell complaint on standard
  error is a success, and the second method is not tried.
\<close>

theorem plain_ignores_signature_counterexample:
  "\<not> managed world_plain_complaint None \<and>
   run world_plain_complaint (wine_start_cmd world_plain_complaint uri0) =
     Completed 0 [] ''/bin/sh: syntax error'' \<and>
   shell_error ''/bin/sh: syntax error'' \<and>
   forward_uri_to_wine uri0 None world_plain_complaint =
     (Inr True, world_plain_complaint\<lparr>calls := [wine_start_cmd world_plain_complaint uri0]\<rparr>)"
proof -
  have n: "\<not> managed world_plain_complaint None"
    unfolding world_plain_complaint_def by (rule not_managed_bare)
  have r: "run world_plain_complaint (wine_start_cmd world_plain_complaint uri0) =
     Completed 0 [] ''/bin/sh: syntax error''"
    by (simp add: world_plain_complaint_def answers_sh_complaint_def)
  have c: "calls world_plain_complaint = []"
    by (simp add: world_plain_complaint_def world_bare_def)
  have f: "forward_uri_to_wine uri0 None world_plain_complaint =
     (Inr True, world_plain_complaint\<lparr>calls := [wine_start_cmd world_plain_complaint uri0]\<rparr>)"
    by (simp add: forward_plain[OF n] plain_chain_def subprocess_run_def r c)
  from n r f sig_sh(1) show ?thesis by simp
qed

section \<open>Path translation\<close>

lemma split_on_nonempty: "split_on sep s \<noteq> []"
  by (induction s) (auto split: list.splits)

lemma split_on_append:
  "sep \<notin> set x \<Longrightarrow> split_on sep (x @ sep # ys) = x # split_on sep ys"
  by (induction x) (auto split: list.splits simp: split_on_nonempty)

lemma split_join:
  "\<forall>c \<in> set rel. sep \<notin> set c \<Longrightarrow> rel \<noteq> [] \<Longrightarrow> split_on sep (str_join [sep] rel) = rel"
proof (induction "[sep]" rel rule: str_join.induct)
  case 1
  then show ?case by simp
next
  case (2 x)
  then show ?case by (simp add: split_on_no_sep)
next
  case (3 x y ys)
  then show ?case by (simp add: split_on_append)
qed

lemma split_join_filter:
  assumes "\<forall>c \<in> set rel. c \<noteq> [] \<and> sep \<notin> set c"
  shows "filter (\<lambda>c. c \<noteq> []) (split_on sep (str_join [sep] rel)) = rel"
proof (cases rel)
  case Nil
  then show ?thesis by simp
next
  case (Cons a as)
  with assms have "split_on sep (str_join [sep] rel) = rel"
    by (intro split_join) auto
  with assms show ?thesis by (simp add: filter_id_conv)
qed

text \<open>
  C5, as the code has it. \<open>_to_windows_path\<close> is a function of its arguments and of
  \<open>Path.resolve\<close> alone and changes nothing. If one of its two resolutions raises, so
  does the function. Otherwise: when the resolved host path lies at or below the drive
  directory of the resolved prefix, the result is the guest path made of its components
  below that directory, and if none of these components contains a backslash, reading
  the guest path back (from the same resolved prefix) gives the resolved host path,
  which is the host path itself when that is already resolved; when the resolved host
  path is not below the drive directory, the result is \<open>str\<close> of the host path as given.
\<close>

theorem to_windows_path_round_trip:
  "(resolve_fn (parse_path wine_prefix) = Inr rp \<and> resolve_fn p = Inr q \<and>
    relative_to q (joinpath rp ''drive_c'') = Some rel \<longrightarrow>
      to_windows_path resolve_fn p wine_prefix =
        Inr (''C:'' @ [backslash] @ str_join [backslash] rel) \<and>
      ((\<forall>c \<in> set rel. c \<noteq> [] \<and> backslash \<notin> set c) \<longrightarrow>
         from_windows_path rp (''C:'' @ [backslash] @ str_join [backslash] rel) = q)) \<and>
   (resolve_fn (parse_path wine_prefix) = Inr rp \<and> resolve_fn p = Inr q \<and>
    relative_to q (joinpath rp ''drive_c'') = None \<longrightarrow>
      to_windows_path resolve_fn p wine_prefix = Inr (path_str p)) \<and>
   (resolve_fn (parse_path wine_prefix) = Inl e \<longrightarrow>
      to_windows_path resolve_fn p wine_prefix = Inl e) \<and>
   (resolve_fn (parse_path wine_prefix) = Inr rp \<and> resolve_fn p = Inl e \<longrightarrow>
      to_windows_path resolve_fn p wine_prefix = Inl e)"
proof (intro conjI impI)
  let ?d = "joinpath rp ''drive_c''"
  assume a: "resolve_fn (parse_path wine_prefix) = Inr rp \<and> resolve_fn p = Inr q \<and>
    relative_to q ?d = Some rel"
  then show "to_windows_path resolve_fn p wine_prefix =
        Inr (''C:'' @ [backslash] @ str_join [backslash] rel)"
    by (simp add: to_windows_path_def)
  assume b: "\<forall>c \<in> set rel. c \<noteq> [] \<and> backslash \<notin> set c"
  from a have r: "root q = root ?d" and pre: "prefix (parts ?d) (parts q)"
    and rel: "rel = drop (length (parts ?d)) (parts q)"
    by (auto simp: relative_to_def split: if_splits)
  from pre rel have parts: "parts q = parts ?d @ rel"
    by (auto simp: prefix_def)
  from b have f: "filter (\<lambda>c. c \<noteq> []) (split_on backslash (str_join [backslash] rel)) = rel"
    by (intro split_join_filter) simp
  have "from_windows_path rp (''C:'' @ [backslash] @ str_join [backslash] rel) =
          Path (root ?d) (parts ?d @ rel)"
    by (simp add: from_windows_path_def Let_def f)
  also have "\<dots> = q"
    using r parts by (cases q) simp
  finally show "from_windows_path rp (''C:'' @ [backslash] @ str_join [backslash] rel) = q" .
next
  assume "resolve_fn (parse_path wine_prefix) = Inr rp \<and> resolve_fn p = Inr q \<and>
    relative_to q (joinpath rp ''drive_c'') = None"
  then show "to_windows_path resolve_fn p wine_prefix = Inr (path_str p)"
    by (simp add: to_windows_path_def)
next
  assume "resolve_fn (parse_path wine_prefix) = Inl e"
  then show "to_windows_path resolve_fn p wine_prefix = Inl e"
    by (simp add: to_windows_path_def)
next
  assume "resolve_fn (parse_path wine_prefix) = Inr rp \<and> resolve_fn p = Inl e"
  then show "to_windows_path resolve_fn p wine_prefix = Inl e"
    by (simp add: to_windows_path_def)
qed

lemma drive_c_bare:
  "joinpath (Path ''/'' wine_sv2) ''drive_c'' = Path ''/'' [''home'', ''u'', ''.wine-sv2'', ''drive_c'']"
  by (simp add: joinpath_name wine_sv2_def)

text \<open>
  C5 at the executable's usual place, at a path outside the prefix that is written
  with two leading slashes (it comes back with both), and where resolving raises.
\<close>

theorem to_windows_path_round_trip_witness:
  "to_windows_path Inr path_exe ''/home/u/.wine-sv2'' =
     Inr (''C:'' @ [backslash] @ ''svstudio2_app'' @ [backslash] @ ''synthv-studio.exe'') \<and>
   from_windows_path (Path ''/'' wine_sv2)
     (''C:'' @ [backslash] @ ''svstudio2_app'' @ [backslash] @ ''synthv-studio.exe'') = path_exe \<and>
   to_windows_path Inr path_outside ''/home/u/.wine-sv2'' = Inr ''//tmp/x.exe'' \<and>
   to_windows_path (\<lambda>_. Inl RuntimeError) path_exe ''/home/u/.wine-sv2'' = Inl RuntimeError"
proof -
  have r: "relative_to path_exe (joinpath (Path ''/'' wine_sv2) ''drive_c'') =
             Some [''svstudio2_app'', ''synthv-studio.exe'']"
    unfolding drive_c_bare by (simp add: relative_to_def path_exe_def wine_sv2_def)
  have b: "\<forall>c \<in> set [''svstudio2_app'', ''synthv-studio.exe'']. c \<noteq> [] \<and> backslash \<notin> set c"
    by (simp add: backslash_def)
  have n: "relative_to path_outside (joinpath (Path ''/'' wine_sv2) ''drive_c'') = None"
    unfolding drive_c_bare by (simp add: relative_to_def path_outside_def)
  have p: "Inr (parse_path ''/home/u/.wine-sv2'') = (Inr (Path ''/'' wine_sv2) :: exn + path)"
    by (simp add: parse_home_wine_sv2)
  from to_windows_path_round_trip[of Inr "''/home/u/.wine-sv2''" "Path ''/'' wine_sv2"
         path_exe path_exe "[''svstudio2_app'', ''synthv-studio.exe'']"] r b p
  have 1: "to_windows_path Inr path_exe ''/home/u/.wine-sv2'' =
     Inr (''C:'' @ [backslash] @ ''svstudio2_app'' @ [backslash] @ ''synthv-studio.exe'')"
    and 2: "from_windows_path (Path ''/'' wine_sv2)
     (''C:'' @ [backslash] @ ''svstudio2_app'' @ [backslash] @ ''synthv-studio.exe'') = path_exe"
    by simp_all
  from to_windows_path_round_trip[of Inr "''/home/u/.wine-sv2''" "Path ''/'' wine_sv2"
         path_outside path_outside] n p
  have 3: "to_windows_path Inr path_outside ''/home/u/.wine-sv2'' = Inr ''//tmp/x.exe''"
    by (simp add: path_str_def path_outside_def)
  from to_windows_path_round_trip[of "\<lambda>_. Inl RuntimeError" "''/home/u/.wine-sv2''" _
         path_exe _ _ RuntimeError]
  have 4: "to_windows_path (\<lambda>_. Inl RuntimeError) path_exe ''/home/u/.wine-sv2'' = Inl RuntimeError"
    by simp
  from 1 2 3 4 show ?thesis by simp
qed

text \<open>
  C5 as stated fails: a file in the drive directory whose name is \<open>a\<close>, a backslash, \<open>b\<close>
  (a legal name on the host) and the file \<open>b\<close> in its subdirectory \<open>a\<close> are translated
  to the same guest path. No reverse mapping can recover both; the one above gives the
  nested file.
\<close>

theorem to_windows_path_not_injective_counterexample:
  "relative_to path_backslash (joinpath (Path ''/'' wine_sv2) ''drive_c'') =
     Some [''a'' @ [backslash] @ ''b''] \<and>
   to_windows_path Inr path_backslash ''/home/u/.wine-sv2'' =
     Inr (''C:'' @ [backslash] @ ''a'' @ [backslash] @ ''b'') \<and>
   to_windows_path Inr path_nested ''/home/u/.wine-sv2'' =
     Inr (''C:'' @ [backslash] @ ''a'' @ [backslash] @ ''b'') \<and>
   from_windows_path (Path ''/'' wine_sv2) (''C:'' @ [backslash] @ ''a'' @ [backslash] @ ''b'') =
     path_nested \<and>
   path_nested \<noteq> path_backslash"
proof -
  have r: "relative_to path_backslash (joinpath (Path ''/'' wine_sv2) ''drive_c'') =
     Some [''a'' @ [backslash] @ ''b'']"
    unfolding drive_c_bare by (simp add: relative_to_def path_backslash_def wine_sv2_def)
  have r2: "relative_to path_nested (joinpath (Path ''/'' wine_sv2) ''drive_c'') =
     Some [''a'', ''b'']"
    unfolding drive_c_bare by (simp add: relative_to_def path_nested_def wine_sv2_def)
  have t1: "to_windows_path Inr path_backslash ''/home/u/.wine-sv2'' =
      Inr (''C:'' @ [backslash] @ ''a'' @ [backslash] @ ''b'')"
    using r by (simp add: to_windows_path_def parse_home_wine_sv2)
  have t2: "to_windows_path Inr path_nested ''/home/u/.wine-sv2'' =
      Inr (''C:'' @ [backslash] @ ''a'' @ [backslash] @ ''b'')"
    using r2 by (simp add: to_windows_path_def parse_home_wine_sv2)
  have f: "from_windows_path (Path ''/'' wine_sv2)
     (''C:'' @ [backslash] @ ''a'' @ [backslash] @ ''b'') = path_nested"
    unfolding from_windows_path_def drive_c_bare
    by (simp add: Let_def path_nested_def wine_sv2_def)
       (simp add: backslash_def)
  have d: "path_nested \<noteq> path_backslash"
    by (simp add: path_nested_def path_backslash_def)
  from r t1 t2 f d show ?thesis by simp
qed

end
